theory Spec2Isabelle
  imports Main "HOL-Library.Word" "HOL-Library.Sublist"
begin

section \<open>JavaScript values and string primitives used by index.js\<close>

text \<open>
  A JavaScript string is a sequence of UTF-16 code units; the byte-order mark tested by
  \<open>formatString\<close> (\<open>0xFEFF\<close>) is one such unit, so a unit is a 16-bit word.
\<close>

type_synonym unit16 = "16 word"
type_synonym jsstring = "unit16 list"

definition nl :: unit16 where
  "nl = 0x0A"

definition bom :: unit16 where
  "bom = 0xFEFF"

text \<open>The default delimiter \<open>'---'\<close> and the default language \<open>'yaml'\<close>.\<close>

definition dashes :: jsstring where
  "dashes = [0x2D, 0x2D, 0x2D]"

definition yaml_name :: jsstring where
  "yaml_name = [0x79, 0x61, 0x6D, 0x6C]"

text \<open>
  The class \<open>\s\<close> of a regular expression, which is also what \<open>String.prototype.trim\<close>
  removes: WhiteSpace and LineTerminator of ECMAScript.
\<close>

definition is_space :: "unit16 \<Rightarrow> bool" where
  "is_space c \<longleftrightarrow>
     c = 0x09 \<or> c = 0x0A \<or> c = 0x0B \<or> c = 0x0C \<or> c = 0x0D \<or> c = 0x20 \<or> c = 0xA0 \<or>
     c = 0x1680 \<or> (0x2000 \<le> c \<and> c \<le> 0x200A) \<or> c = 0x2028 \<or> c = 0x2029 \<or>
     c = 0x202F \<or> c = 0x205F \<or> c = 0x3000 \<or> c = 0xFEFF"

definition trim :: "jsstring \<Rightarrow> jsstring" where
  "trim s = rev (dropWhile is_space (rev (dropWhile is_space s)))"

text \<open>
  \<open>s[i]\<close>: the unit at index \<open>i\<close>, or \<open>undefined\<close> (\<open>None\<close>) outside the string; the
  source reads \<open>header[header.length-1]\<close>, whose index is \<open>-1\<close> for an empty header.
\<close>

definition char_at :: "jsstring \<Rightarrow> int \<Rightarrow> unit16 option" where
  "char_at s i = (if 0 \<le> i \<and> i < int (length s) then Some (s ! nat i) else None)"

text \<open>\<open>s.substr(start, len)\<close> and \<open>s.substr(start)\<close> for non-negative arguments.\<close>

definition substr :: "jsstring \<Rightarrow> nat \<Rightarrow> nat \<Rightarrow> jsstring" where
  "substr s start len = take len (drop start s)"

definition substr_from :: "jsstring \<Rightarrow> nat \<Rightarrow> jsstring" where
  "substr_from s start = drop start s"

text \<open>
  \<open>s.indexOf(pat, pos)\<close>: the least index \<open>k \<ge> min pos (length s)\<close> at which \<open>pat\<close>
  occurs in \<open>s\<close>; \<open>None\<close> stands for the result \<open>-1\<close>.
\<close>

fun find_from :: "jsstring \<Rightarrow> jsstring \<Rightarrow> nat \<Rightarrow> nat option" where
  "find_from pat [] k = (if pat = [] then Some k else None)"
| "find_from pat (x # xs) k =
     (if prefix pat (x # xs) then Some k else find_from pat xs (Suc k))"

definition indexOf :: "jsstring \<Rightarrow> jsstring \<Rightarrow> nat \<Rightarrow> nat option" where
  "indexOf s pat pos = (let p = min pos (length s) in find_from pat (drop p s) p)"

text \<open>
  Values an option or an argument can hold. A function value is a parser: it takes the
  metadata text and the \<open>loose\<close> flag of its second argument and returns a value or throws.
  Numbers are integers (only their truthiness is observed); an object is the association
  list of its own properties. \<open>TypeError\<close> is the error of reading a property of \<open>null\<close> or
  \<open>undefined\<close>.
\<close>

datatype error =
    NotAString
  | LangNotString
  | DelimsInvalid
  | NoParser jsstring
  | NeedsCallback
  | TypeError
  | Thrown jsstring

datatype jsval =
    JUndefined
  | JNull
  | JBool bool
  | JNum int
  | JStr jsstring
  | JArr "jsval list"
  | JObj "(jsstring \<times> jsval) list"
  | JFun "jsstring \<Rightarrow> bool \<Rightarrow> error + jsval"

text \<open>\<open>v != null\<close> is \<open>\<not> nullish v\<close>; \<open>Boolean(v)\<close> is \<open>truthy v\<close>.\<close>

fun nullish :: "jsval \<Rightarrow> bool" where
  "nullish JUndefined = True"
| "nullish JNull = True"
| "nullish _ = False"

fun truthy :: "jsval \<Rightarrow> bool" where
  "truthy JUndefined = False"
| "truthy JNull = False"
| "truthy (JBool b) = b"
| "truthy (JNum n) = (n \<noteq> 0)"
| "truthy (JStr s) = (s \<noteq> [])"
| "truthy _ = True"

fun is_string :: "jsval \<Rightarrow> bool" where
  "is_string (JStr s) = True"
| "is_string _ = False"

text \<open>
  \<open>a[i]\<close> and \<open>a[i] = v\<close> on an array: a read past the end is \<open>undefined\<close>, a write past
  the end extends the array.
\<close>

definition arr_get :: "jsval list \<Rightarrow> nat \<Rightarrow> jsval" where
  "arr_get a i = (if i < length a then a ! i else JUndefined)"

definition arr_set :: "jsval list \<Rightarrow> nat \<Rightarrow> jsval \<Rightarrow> jsval list" where
  "arr_set a i v =
     (if i < length a then a[i := v] else a @ replicate (i - length a) JUndefined @ [v])"


text \<open>The value of an expression that is known to be a string: \<open>formatOptions\<close> has checked
  \<open>opts.lang\<close>, \<open>opts.delims[0]\<close> and \<open>opts.delims[1]\<close> before \<open>matter\<close> reads them.\<close>

fun as_string :: "jsval \<Rightarrow> jsstring" where
  "as_string (JStr s) = s"
| "as_string _ = []"

fun index_val :: "jsval \<Rightarrow> nat \<Rightarrow> jsval" where
  "index_val (JArr a) i = arr_get a i"
| "index_val _ i = JUndefined"

section \<open>The environment of a call\<close>

text \<open>
  \<open>registry\<close> is the shared object \<open>matter.parsers\<close>, which callers may edit between calls;
  \<open>toLowerCase\<close> is \<open>String.prototype.toLowerCase\<close>, whose Unicode tables are not part of
  the repository; \<open>read_prop v key\<close> is what the JavaScript runtime reads as \<open>v[key]\<close> from a
  value that is neither \<open>null\<close> nor \<open>undefined\<close>: an own property, a property inherited
  from a prototype, an index or the length of a string or an array, or \<open>undefined\<close>.
\<close>

record env =
  registry :: jsval
  toLowerCase :: "jsstring \<Rightarrow> jsstring"
  read_prop :: "jsval \<Rightarrow> jsstring \<Rightarrow> jsval"

text \<open>\<open>v[key]\<close>: reading a property of \<open>null\<close> or \<open>undefined\<close> throws.\<close>

definition get_prop :: "env \<Rightarrow> jsval \<Rightarrow> jsstring \<Rightarrow> error + jsval" where
  "get_prop env v key = (if nullish v then Inl TypeError else Inr (read_prop env v key))"

text \<open>The options object; a property that is missing reads as \<open>undefined\<close>.\<close>

record opts =
  loose :: jsval
  lang :: jsval
  delims :: jsval
  parsers :: jsval

definition empty_opts :: opts where
  "empty_opts = \<lparr>loose = JUndefined, lang = JUndefined, delims = JUndefined, parsers = JUndefined\<rparr>"

record result =
  src :: jsstring
  data :: jsval
  body :: jsstring

section \<open>formatString, formatDelimiters, formatOptions\<close>

definition formatString :: "jsval \<Rightarrow> error + jsstring" where
  "formatString str =
     (case str of
        JStr s \<Rightarrow> (if char_at s 0 = Some bom then Inr (substr_from s 1) else Inr s)
      | _ \<Rightarrow> Inl NotAString)"

text \<open>
  \<open>formatDelimiters\<close> assigns to entries 0 and 1 of the array it is given, so the caller's
  array changes. The first component of the result is the argument as the caller sees it
  after the call; the second is the exception thrown or the value returned (\<open>null\<close> or the
  array).
\<close>

definition formatDelimiters :: "jsval \<Rightarrow> bool \<Rightarrow> jsval \<times> (error + jsval)" where
  "formatDelimiters delims0 nothrow =
     (let a0 = (case delims0 of JArr a \<Rightarrow> a | _ \<Rightarrow> [delims0]);
          a1 = arr_set a0 0
                 (if \<not> nullish (arr_get a0 0) then arr_get a0 0
                  else if \<not> nullish (arr_get a0 1) then arr_get a0 1 else JStr dashes);
          a2 = arr_set a1 1
                 (if \<not> nullish (arr_get a1 1) then arr_get a1 1
                  else if \<not> nullish (arr_get a1 0) then arr_get a1 0 else JStr dashes);
          seen = (case delims0 of JArr a \<Rightarrow> JArr a2 | _ \<Rightarrow> delims0)
      in if \<not> is_string (arr_get a2 0) \<or> \<not> is_string (arr_get a2 1)
         then (if \<not> nothrow then (seen, Inl DelimsInvalid) else (seen, Inr JNull))
         else (seen, Inr (JArr a2)))"

definition default_opts :: opts where
  "default_opts =
     \<lparr>loose = JBool False, lang = JStr yaml_name,
      delims = JArr [JStr dashes, JStr dashes], parsers = JNull\<rparr>"

text \<open>
  \<open>formatOptions\<close> writes the normalised fields into the object it is given and returns
  that object. The first component of the result is the caller's object after the call
  (\<open>None\<close>: the caller passed \<open>null\<close> or nothing).
\<close>

definition formatOptions :: "env \<Rightarrow> opts option \<Rightarrow> opts option \<times> (error + opts)" where
  "formatOptions env opts0 =
     (case opts0 of
        None \<Rightarrow> (None, Inr default_opts)
      | Some ob \<Rightarrow>
          (let o1 = ob\<lparr>lang := (if \<not> nullish (lang ob) then lang ob else JStr yaml_name)\<rparr>
           in case lang o1 of
                JStr l \<Rightarrow>
                  (let o2 = o1\<lparr>lang := JStr (toLowerCase env (trim l))\<rparr>;
                       (seen, r) = formatDelimiters (delims o2) False
                   in case r of
                        Inl e \<Rightarrow> (Some (o2\<lparr>delims := seen\<rparr>), Inl e)
                      | Inr d \<Rightarrow>
                          (let o3 = o2\<lparr>delims := d\<rparr>;
                               o4 = o3\<lparr>parsers := (if \<not> nullish (parsers o3) then parsers o3 else JNull)\<rparr>;
                               o5 = o4\<lparr>loose := JBool (truthy (loose o4))\<rparr>
                           in (Some o5, Inr o5)))
              | _ \<Rightarrow> (Some o1, Inl LangNotString)))"

section \<open>matter\<close>

text \<open>\<open>opts.delims[0]\<close> and \<open>opts.delims[1]\<close> of the formatted options (lines 28 and 29).\<close>

definition header_of :: "opts \<Rightarrow> jsstring" where
  "header_of opts = as_string (index_val (delims opts) 0)"

definition footer_of :: "opts \<Rightarrow> jsstring" where
  "footer_of opts = as_string (index_val (delims opts) 1)"

text \<open>The \<open>while\<close> loop of lines 48 to 53; \<open>None\<close> is the \<open>return result\<close> inside it.\<close>

function matter_scan :: "jsstring \<Rightarrow> nat \<Rightarrow> nat option" where
  "matter_scan str bodyStart =
     (if bodyStart < length str \<and> char_at str (int bodyStart) \<noteq> Some nl
      then (if \<not> is_space (str ! bodyStart) then None else matter_scan str (Suc bodyStart))
      else Some bodyStart)"
  by pat_completeness auto
termination
  by (relation "measure (\<lambda>(str, bodyStart). length str - bodyStart)") auto

declare matter_scan.simps [simp del]

text \<open>Lines 32 to 41: the header test and the two searches; \<open>None\<close> is \<open>return result\<close>.\<close>

definition matter_locate :: "jsstring \<Rightarrow> jsstring \<Rightarrow> jsstring \<Rightarrow> bool \<Rightarrow> (nat \<times> nat) option" where
  "matter_locate str header footer is_loose =
     (if substr str 0 (length header) \<noteq> header then None
      else if \<not> is_loose \<and> length header < length str \<and>
              char_at str (int (length header)) \<noteq> Some nl \<and>
              char_at str (int (length header)) = char_at header (int (length header) - 1)
      then None
      else case indexOf str [nl] (length header) of
             None \<Rightarrow> None
           | Some dataStart \<Rightarrow>
               (case indexOf str (nl # footer) dataStart of
                  None \<Rightarrow> None
                | Some dataEnd \<Rightarrow> Some (dataStart, dataEnd)))"

text \<open>Lines 44 to 57: the guard after the footer, the scan and the absorbed linefeed.\<close>

definition matter_footer :: "jsstring \<Rightarrow> jsstring \<Rightarrow> bool \<Rightarrow> nat \<Rightarrow> nat option" where
  "matter_footer str footer strict bodyStart =
     (case (if strict \<and> bodyStart < length str
            then (if char_at str (int bodyStart) \<noteq> Some nl \<and>
                     char_at str (int bodyStart) = char_at footer (int (length footer) - 1)
                  then None
                  else matter_scan str bodyStart)
            else Some bodyStart) of
        None \<Rightarrow> None
      | Some bs \<Rightarrow> Some (if char_at str (int bs) = Some nl then Suc bs else bs))"

text \<open>
  The detection phase of \<open>matter\<close> (lines 27 to 57): \<open>None\<close> when the function returns the
  unchanged result, otherwise \<open>dataStart\<close>, \<open>dataEnd\<close> and the final \<open>bodyStart\<close>.
\<close>

definition matter_detect :: "jsstring \<Rightarrow> jsstring \<Rightarrow> jsstring \<Rightarrow> bool \<Rightarrow> (nat \<times> nat \<times> nat) option" where
  "matter_detect str header footer is_loose =
     (case matter_locate str header footer is_loose of
        None \<Rightarrow> None
      | Some (dataStart, dataEnd) \<Rightarrow>
          (case matter_footer str footer (\<not> is_loose) (dataEnd + 1 + length footer) of
             None \<Rightarrow> None
           | Some bodyStart \<Rightarrow> Some (dataStart, dataEnd, bodyStart)))"

text \<open>Lines 60 and 61: the language named after the header, or else \<open>opts.lang\<close>.\<close>

definition lang_of :: "env \<Rightarrow> jsstring \<Rightarrow> jsstring \<Rightarrow> nat \<Rightarrow> opts \<Rightarrow> jsstring" where
  "lang_of env str header dataStart opts =
     (let tag = toLowerCase env
                  (trim (substr str (length header) (dataStart - length header)))
      in if tag \<noteq> [] then tag else as_string (lang opts))"

text \<open>
  Lines 62 to 69: the value of \<open>parse\<close>, or the error of reading \<open>matter.parsers[lang]\<close>
  when \<open>matter.parsers\<close> is \<open>null\<close> or \<open>undefined\<close>. \<open>opts.parsers[lang]\<close> is read only
  after \<open>opts.parsers != null\<close>.
\<close>

definition resolve :: "env \<Rightarrow> jsval \<Rightarrow> jsstring \<Rightarrow> error + jsval" where
  "resolve env ps lang' =
     (case ps of
        JFun p \<Rightarrow> Inr (JFun p)
      | _ \<Rightarrow> (if \<not> nullish ps \<and> truthy (read_prop env ps lang') then Inr (read_prop env ps lang')
              else get_prop env (registry env) lang'))"

text \<open>
  A run of \<open>matter\<close>: the caller's options object after the call, the parser calls made
  (metadata text and \<open>loose\<close> flag passed), and the exception thrown or the result returned.
\<close>

record run =
  opts_after :: "opts option"
  calls :: "(jsstring \<times> bool) list"
  ret :: "error + result"

definition matter :: "env \<Rightarrow> jsval \<Rightarrow> opts option \<Rightarrow> run" where
  "matter env str0 opts0 =
     (case formatString str0 of
        Inl e \<Rightarrow> \<lparr>opts_after = opts0, calls = [], ret = Inl e\<rparr>
      | Inr str \<Rightarrow>
          (case formatOptions env opts0 of
             (seen, Inl e) \<Rightarrow> \<lparr>opts_after = seen, calls = [], ret = Inl e\<rparr>
           | (seen, Inr opts) \<Rightarrow>
               (let result = \<lparr>src = str, data = JNull, body = str\<rparr>
                in if str = [] then \<lparr>opts_after = seen, calls = [], ret = Inr result\<rparr>
                   else
                     (let header = header_of opts;
                          footer = footer_of opts
                      in case matter_detect str header footer (truthy (loose opts)) of
                           None \<Rightarrow> \<lparr>opts_after = seen, calls = [], ret = Inr result\<rparr>
                         | Some (dataStart, dataEnd, bodyStart) \<Rightarrow>
                             (if dataStart < dataEnd
                              then
                                (let data' = trim (substr str dataStart (dataEnd - dataStart));
                                     lang' = lang_of env str header dataStart opts
                                 in case resolve env (parsers opts) lang' of
                                      Inl e \<Rightarrow> \<lparr>opts_after = seen, calls = [], ret = Inl e\<rparr>
                                    | Inr v \<Rightarrow>
                                        (case v of
                                           JFun parse \<Rightarrow>
                                             (case parse data' (truthy (loose opts)) of
                                                Inl e \<Rightarrow>
                                                  \<lparr>opts_after = seen,
                                                   calls = [(data', truthy (loose opts))], ret = Inl e\<rparr>
                                              | Inr d \<Rightarrow>
                                                  \<lparr>opts_after = seen,
                                                   calls = [(data', truthy (loose opts))],
                                                   ret = Inr (result\<lparr>data := d,
                                                                body := substr_from str bodyStart\<rparr>)\<rparr>)
                                         | _ \<Rightarrow> \<lparr>opts_after = seen, calls = [],
                                                 ret = Inl (NoParser lang')\<rparr>))
                              else \<lparr>opts_after = seen, calls = [],
                                    ret = Inr (result\<lparr>body := substr_from str bodyStart\<rparr>)\<rparr>)))))"

section \<open>matter.test\<close>

text \<open>The \<open>while\<close> loop of lines 121 to 126; \<open>False\<close> is the \<open>return false\<close> inside it.\<close>

function test_scan :: "jsstring \<Rightarrow> nat \<Rightarrow> bool" where
  "test_scan str bodyStart =
     (if bodyStart < length str \<and> char_at str (int bodyStart) \<noteq> Some nl
      then (if \<not> is_space (str ! bodyStart) then False else test_scan str (Suc bodyStart))
      else True)"
  by pat_completeness auto
termination
  by (relation "measure (\<lambda>(str, bodyStart). length str - bodyStart)") auto

declare test_scan.simps [simp del]

text \<open>Lines 105 to 114.\<close>

definition test_locate :: "jsstring \<Rightarrow> jsstring \<Rightarrow> jsstring \<Rightarrow> bool \<Rightarrow> (nat \<times> nat) option" where
  "test_locate str header footer strict =
     (if substr str 0 (length header) \<noteq> header then None
      else if strict \<and> length header < length str \<and>
              char_at str (int (length header)) \<noteq> Some nl \<and>
              char_at str (int (length header)) = char_at header (int (length header) - 1)
      then None
      else case indexOf str [nl] (length header) of
             None \<Rightarrow> None
           | Some dataStart \<Rightarrow>
               (case indexOf str (nl # footer) dataStart of
                  None \<Rightarrow> None
                | Some dataEnd \<Rightarrow> Some (dataStart, dataEnd)))"

text \<open>Lines 115 to 128.\<close>

definition test_footer :: "jsstring \<Rightarrow> jsstring \<Rightarrow> bool \<Rightarrow> nat \<Rightarrow> bool" where
  "test_footer str footer strict bodyStart =
     (if strict \<and> bodyStart < length str
      then (if char_at str (int bodyStart) \<noteq> Some nl \<and>
               char_at str (int bodyStart) = char_at footer (int (length footer) - 1)
            then False
            else test_scan str bodyStart)
      else True)"

definition test_detect :: "jsstring \<Rightarrow> jsstring \<Rightarrow> jsstring \<Rightarrow> bool \<Rightarrow> bool" where
  "test_detect str header footer strict =
     (case test_locate str header footer strict of
        None \<Rightarrow> False
      | Some (dataStart, dataEnd) \<Rightarrow> test_footer str footer strict (dataEnd + 1 + length footer))"

text \<open>
  \<open>matter.test\<close>: the caller's options object after the call (its \<open>delims\<close> array is
  written by \<open>formatDelimiters\<close>), and the exception thrown or the boolean returned.
\<close>

definition matter_test :: "jsval \<Rightarrow> opts option \<Rightarrow> opts option \<times> (error + bool)" where
  "matter_test str0 opts0 =
     (case str0 of
        JStr str \<Rightarrow>
          (if str = [] then (opts0, Inr False)
           else
             (let opts = (case opts0 of Some ob \<Rightarrow> ob | None \<Rightarrow> empty_opts);
                  (d, r) = formatDelimiters (delims opts) True;
                  seen = map_option (\<lambda>ob. ob\<lparr>delims := d\<rparr>) opts0
              in case r of
                   Inl e \<Rightarrow> (seen, Inl e)
                 | Inr delims' \<Rightarrow>
                     (if \<not> truthy delims' then (seen, Inr False)
                      else
                        (let header = as_string (index_val delims' 0);
                             footer = as_string (index_val delims' 1);
                             strict = (\<not> truthy (loose opts))
                         in (seen, Inr (test_detect str header footer strict))))))
      | _ \<Rightarrow> (opts0, Inr False))"

section \<open>matter.readFile\<close>

text \<open>
  The file system is outside the repository: \<open>read_result\<close> is the pair \<open>(err, content)\<close>
  that \<open>fs.readFile\<close> hands to its callback for a path, \<open>realpathSync\<close> the outcome of
  \<open>fs.realpathSync\<close>.
\<close>

record fs =
  read_result :: "jsstring \<Rightarrow> jsval \<times> jsval"
  realpathSync :: "jsstring \<Rightarrow> error + jsstring"

text \<open>
  One call of the user's callback: the error argument and the second argument, which is
  \<open>null\<close> (\<open>None\<close>) or the result with its \<open>path\<close>.
\<close>

datatype cb_call = Callback jsval "(result \<times> jsstring) option"

text \<open>
  Lines 167 to 174, the function given to \<open>fs.readFile\<close>: the calls of the user's callback
  it makes, and the exception that leaves it, if any. Nothing catches that exception.
\<close>

definition readFile_done ::
    "env \<Rightarrow> fs \<Rightarrow> jsstring \<Rightarrow> opts \<Rightarrow> jsval \<Rightarrow> jsval \<Rightarrow> cb_call list \<times> error option" where
  "readFile_done env fs path opts err content =
     (let made = (if truthy err then [Callback err None] else [])
      in case ret (matter env content (Some opts)) of
           Inl e \<Rightarrow> (made, Some e)
         | Inr result \<Rightarrow>
             (case realpathSync fs path of
                Inl e \<Rightarrow> (made, Some e)
              | Inr p \<Rightarrow> (made @ [Callback err (Some (result, p))], None)))"

text \<open>The second argument of \<open>matter.readFile\<close> is the callback or the options.\<close>

datatype rf_arg = ArgFun | ArgOpts "opts option"

record rf_run =
  cb_calls :: "cb_call list"
  thrown :: "error option"
  uncaught :: "error option"

definition readFile :: "env \<Rightarrow> fs \<Rightarrow> jsstring \<Rightarrow> rf_arg \<Rightarrow> bool \<Rightarrow> rf_run" where
  "readFile env fs path arg2 arg3_is_function =
     (let (opts0, has_callback) =
            (case arg2 of ArgFun \<Rightarrow> (None, True) | ArgOpts x \<Rightarrow> (x, arg3_is_function))
      in if \<not> has_callback
         then \<lparr>cb_calls = [], thrown = Some NeedsCallback, uncaught = None\<rparr>
         else
           (case formatOptions env opts0 of
              (seen, Inl e) \<Rightarrow> \<lparr>cb_calls = [], thrown = Some e, uncaught = None\<rparr>
            | (seen, Inr opts) \<Rightarrow>
                (let (err, content) = read_result fs path;
                     (made, escaped) = readFile_done env fs path opts err content
                 in \<lparr>cb_calls = made, thrown = None, uncaught = escaped\<rparr>)))"

section \<open>Sample inputs\<close>

text \<open>The JavaScript string of an ASCII text.\<close>

definition js :: "string \<Rightarrow> jsstring" where
  "js s = map of_char s"

text \<open>A parser that returns the text it is given, as a string value.\<close>

definition echo :: "jsstring \<Rightarrow> bool \<Rightarrow> error + jsval" where
  "echo s l = Inr (JStr s)"

text \<open>Lower-casing of the letters A to Z, which is what \<open>toLowerCase\<close> does on ASCII text.\<close>

definition ascii_lower :: "jsstring \<Rightarrow> jsstring" where
  "ascii_lower s = map (\<lambda>c. if 0x41 \<le> c \<and> c \<le> 0x5A then c + 0x20 else c) s"

text \<open>
  A property read that finds own properties only, as on objects made without a prototype.
  The samples read no other key than \<open>'yaml'\<close>, which no prototype defines.
\<close>

fun own_prop :: "jsval \<Rightarrow> jsstring \<Rightarrow> jsval" where
  "own_prop (JObj kvs) key = (case map_of kvs key of Some v \<Rightarrow> v | None \<Rightarrow> JUndefined)"
| "own_prop _ key = JUndefined"

definition sample_env :: env where
  "sample_env =
     \<lparr>registry = JObj [(yaml_name, JFun echo)], toLowerCase = ascii_lower, read_prop = own_prop\<rparr>"

text \<open>The options \<open>{loose: true}\<close>.\<close>

definition loose_opts :: opts where
  "loose_opts = empty_opts\<lparr>loose := JBool True\<rparr>"

text \<open>A file system in which no file exists: every read fails with an error object.\<close>

definition enoent :: jsval where
  "enoent = JObj [(js ''code'', JStr (js ''ENOENT''))]"

definition no_files :: fs where
  "no_files = \<lparr>read_result = (\<lambda>p. (enoent, JUndefined)),
                realpathSync = (\<lambda>p. Inl (Thrown (js ''ENOENT'')))\<rparr>"

text \<open>The options \<open>{delims: ['~~~']}\<close> and \<open>{parsers: {yaml: true}}\<close>.\<close>

definition tilde_opts :: opts where
  "tilde_opts = empty_opts\<lparr>delims := JArr [JStr (js ''~~~'')]\<rparr>"

definition bad_parser_opts :: opts where
  "bad_parser_opts = empty_opts\<lparr>parsers := JObj [(yaml_name, JBool True)]\<rparr>"

text \<open>The options \<open>{lang: false}\<close> and \<open>{delims: [null, false]}\<close> of test.js.\<close>

definition lang_false_opts :: opts where
  "lang_false_opts = empty_opts\<lparr>lang := JBool False\<rparr>"

definition delims_false_opts :: opts where
  "delims_false_opts = empty_opts\<lparr>delims := JArr [JNull, JBool False]\<rparr>"


text \<open>An environment in which the caller has set \<open>matter.parsers\<close> to \<open>null\<close>.\<close>

definition no_registry_env :: env where
  "no_registry_env = sample_env\<lparr>registry := JNull\<rparr>"


section \<open>Properties\<close>

lemmas eval_defs =
  matter_def matter_test_def formatString_def formatOptions_def formatDelimiters_def
  default_opts_def empty_opts_def header_of_def footer_of_def
  matter_detect_def matter_locate_def matter_footer_def lang_of_def
  test_detect_def test_locate_def test_footer_def resolve_def get_prop_def sample_env_def loose_opts_def
  char_at_def substr_def substr_from_def indexOf_def arr_get_def arr_set_def
  js_def nl_def bom_def dashes_def yaml_name_def trim_def is_space_def echo_def
  ascii_lower_def tilde_opts_def bad_parser_opts_def lang_false_opts_def delims_false_opts_def no_registry_env_def
  matter_scan.simps test_scan.simps Let_def

subsection \<open>The option formatters\<close>

lemma arr_two_strings:
  "is_string (arr_get a 0) \<Longrightarrow> is_string (arr_get a 1) \<Longrightarrow> \<exists>h f rest. a = JStr h # JStr f # rest"
  apply (cases a; simp add: arr_get_def)
  subgoal for x xs
    apply (cases xs; simp)
    subgoal for y ys by (cases x; cases y; simp)
    done
  done

lemma formatDelimiters_returns:
  "formatDelimiters d nothrow = (seen, Inr v) \<Longrightarrow>
     (v = JNull \<and> nothrow) \<or> (\<exists>h f rest. v = JArr (JStr h # JStr f # rest))"
  unfolding formatDelimiters_def Let_def
  by (auto split: if_splits dest: arr_two_strings)

lemma formatOptions_Some:
  assumes "snd (formatOptions env (Some ob)) = Inr opts"
  shows "fst (formatOptions env (Some ob)) = Some opts"
    and "loose opts = JBool (truthy (loose ob))"
    and "lang opts = JStr (toLowerCase env (trim (if nullish (lang ob) then yaml_name else as_string (lang ob))))"
    and "parsers opts = (if nullish (parsers ob) then JNull else parsers ob)"
    and "snd (formatDelimiters (delims ob) False) = Inr (delims opts)"
proof -
  obtain seen r where fd: "formatDelimiters (delims ob) False = (seen, r)"
    by (cases "formatDelimiters (delims ob) False")
  show "fst (formatOptions env (Some ob)) = Some opts"
    using assms fd unfolding formatOptions_def Let_def
    by (cases "lang ob"; cases r; simp; auto)
  show "loose opts = JBool (truthy (loose ob))"
    using assms fd unfolding formatOptions_def Let_def
    by (cases "lang ob"; cases r; simp; auto)
  show "lang opts = JStr (toLowerCase env (trim (if nullish (lang ob) then yaml_name else as_string (lang ob))))"
    using assms fd unfolding formatOptions_def Let_def
    by (cases "lang ob"; cases r; simp; auto)
  show "parsers opts = (if nullish (parsers ob) then JNull else parsers ob)"
    using assms fd unfolding formatOptions_def Let_def
    by (cases "lang ob"; cases r; simp; auto)
  show "snd (formatDelimiters (delims ob) False) = Inr (delims opts)"
    using assms fd unfolding formatOptions_def Let_def
    by (cases "lang ob"; cases r; simp; auto)
qed

subsection \<open>The outcomes of matter\<close>

lemma matter_config_error:
  "formatOptions env opts0 = (seen, Inl e) \<Longrightarrow>
   matter env (JStr s) opts0 = \<lparr>opts_after = seen, calls = [], ret = Inl e\<rparr>"
  by (simp add: matter_def formatString_def)

lemma matter_absent:
  "formatString (JStr s) = Inr str \<Longrightarrow> formatOptions env opts0 = (seen, Inr opts) \<Longrightarrow>
   str = [] \<or> matter_detect str (header_of opts) (footer_of opts) (truthy (loose opts)) = None \<Longrightarrow>
   matter env (JStr s) opts0 =
     \<lparr>opts_after = seen, calls = [], ret = Inr \<lparr>src = str, data = JNull, body = str\<rparr>\<rparr>"
  by (auto simp add: matter_def Let_def)

lemma matter_empty_span:
  "formatString (JStr s) = Inr str \<Longrightarrow> formatOptions env opts0 = (seen, Inr opts) \<Longrightarrow> str \<noteq> [] \<Longrightarrow>
   matter_detect str (header_of opts) (footer_of opts) (truthy (loose opts)) = Some (ds, de, bs) \<Longrightarrow>
   \<not> ds < de \<Longrightarrow>
   matter env (JStr s) opts0 =
     \<lparr>opts_after = seen, calls = [],
      ret = Inr \<lparr>src = str, data = JNull, body = substr_from str bs\<rparr>\<rparr>"
  by (simp add: matter_def Let_def)

lemma matter_parser_called:
  "formatString (JStr s) = Inr str \<Longrightarrow> formatOptions env opts0 = (seen, Inr opts) \<Longrightarrow> str \<noteq> [] \<Longrightarrow>
   matter_detect str (header_of opts) (footer_of opts) (truthy (loose opts)) = Some (ds, de, bs) \<Longrightarrow>
   ds < de \<Longrightarrow>
   resolve env (parsers opts) (lang_of env str (header_of opts) ds opts) = Inr (JFun parse) \<Longrightarrow>
   matter env (JStr s) opts0 =
     \<lparr>opts_after = seen,
      calls = [(trim (substr str ds (de - ds)), truthy (loose opts))],
      ret = (case parse (trim (substr str ds (de - ds))) (truthy (loose opts)) of
               Inl e \<Rightarrow> Inl e
             | Inr d \<Rightarrow> Inr \<lparr>src = str, data = d, body = substr_from str bs\<rparr>)\<rparr>"
  by (simp add: matter_def Let_def split: sum.splits)

lemma matter_no_parser:
  "formatString (JStr s) = Inr str \<Longrightarrow> formatOptions env opts0 = (seen, Inr opts) \<Longrightarrow> str \<noteq> [] \<Longrightarrow>
   matter_detect str (header_of opts) (footer_of opts) (truthy (loose opts)) = Some (ds, de, bs) \<Longrightarrow>
   ds < de \<Longrightarrow>
   resolve env (parsers opts) (lang_of env str (header_of opts) ds opts) = Inr v \<Longrightarrow>
   \<forall>parse. v \<noteq> JFun parse \<Longrightarrow>
   matter env (JStr s) opts0 =
     \<lparr>opts_after = seen, calls = [], ret = Inl (NoParser (lang_of env str (header_of opts) ds opts))\<rparr>"
  by (simp add: matter_def Let_def split: jsval.splits)

lemma matter_lookup_failed:
  "formatString (JStr s) = Inr str \<Longrightarrow> formatOptions env opts0 = (seen, Inr opts) \<Longrightarrow> str \<noteq> [] \<Longrightarrow>
   matter_detect str (header_of opts) (footer_of opts) (truthy (loose opts)) = Some (ds, de, bs) \<Longrightarrow>
   ds < de \<Longrightarrow>
   resolve env (parsers opts) (lang_of env str (header_of opts) ds opts) = Inl e \<Longrightarrow>
   matter env (JStr s) opts0 = \<lparr>opts_after = seen, calls = [], ret = Inl e\<rparr>"
  by (simp add: matter_def Let_def)


lemma matter_cases [consumes 2, case_names absent empty_span called no_parser lookup_failed]:
  assumes fs: "formatString (JStr s) = Inr str"
    and fo: "formatOptions env opts0 = (seen, Inr opts)"
  obtains
    (absent) "str = [] \<or> matter_detect str (header_of opts) (footer_of opts) (truthy (loose opts)) = None"
      "matter env (JStr s) opts0 =
         \<lparr>opts_after = seen, calls = [], ret = Inr \<lparr>src = str, data = JNull, body = str\<rparr>\<rparr>"
  | (empty_span) ds de bs where "str \<noteq> []"
      "matter_detect str (header_of opts) (footer_of opts) (truthy (loose opts)) = Some (ds, de, bs)"
      "\<not> ds < de"
      "matter env (JStr s) opts0 =
         \<lparr>opts_after = seen, calls = [],
          ret = Inr \<lparr>src = str, data = JNull, body = substr_from str bs\<rparr>\<rparr>"
  | (called) ds de bs parse where "str \<noteq> []"
      "matter_detect str (header_of opts) (footer_of opts) (truthy (loose opts)) = Some (ds, de, bs)"
      "ds < de"
      "resolve env (parsers opts) (lang_of env str (header_of opts) ds opts) = Inr (JFun parse)"
      "matter env (JStr s) opts0 =
         \<lparr>opts_after = seen,
          calls = [(trim (substr str ds (de - ds)), truthy (loose opts))],
          ret = (case parse (trim (substr str ds (de - ds))) (truthy (loose opts)) of
                   Inl e \<Rightarrow> Inl e
                 | Inr d \<Rightarrow> Inr \<lparr>src = str, data = d, body = substr_from str bs\<rparr>)\<rparr>"
  | (no_parser) ds de bs v where "str \<noteq> []"
      "matter_detect str (header_of opts) (footer_of opts) (truthy (loose opts)) = Some (ds, de, bs)"
      "ds < de"
      "resolve env (parsers opts) (lang_of env str (header_of opts) ds opts) = Inr v"
      "\<forall>parse. v \<noteq> JFun parse"
      "matter env (JStr s) opts0 =
         \<lparr>opts_after = seen, calls = [],
          ret = Inl (NoParser (lang_of env str (header_of opts) ds opts))\<rparr>"
  | (lookup_failed) ds de bs e where "str \<noteq> []"
      "matter_detect str (header_of opts) (footer_of opts) (truthy (loose opts)) = Some (ds, de, bs)"
      "ds < de"
      "resolve env (parsers opts) (lang_of env str (header_of opts) ds opts) = Inl e"
      "matter env (JStr s) opts0 = \<lparr>opts_after = seen, calls = [], ret = Inl e\<rparr>"
proof (cases "str = [] \<or> matter_detect str (header_of opts) (footer_of opts) (truthy (loose opts)) = None")
  case True
  then show ?thesis using absent matter_absent [OF fs fo] by blast
next
  case False
  then obtain ds de bs where ne: "str \<noteq> []"
    and d: "matter_detect str (header_of opts) (footer_of opts) (truthy (loose opts)) = Some (ds, de, bs)"
    by (cases "matter_detect str (header_of opts) (footer_of opts) (truthy (loose opts))") auto
  show ?thesis
  proof (cases "ds < de")
    case False
    then show ?thesis using empty_span [OF ne d] matter_empty_span [OF fs fo ne d] by blast
  next
    case True
    show ?thesis
    proof (cases "resolve env (parsers opts) (lang_of env str (header_of opts) ds opts)")
      case (Inl e)
      then show ?thesis
        using lookup_failed [OF ne d True] matter_lookup_failed [OF fs fo ne d True] by blast
    next
      case (Inr v)
      show ?thesis
      proof (cases "\<exists>parse. v = JFun parse")
        case True
        then obtain parse where "resolve env (parsers opts) (lang_of env str (header_of opts) ds opts) = Inr (JFun parse)"
          using Inr by blast
        then show ?thesis
          using called [OF ne d \<open>ds < de\<close>] matter_parser_called [OF fs fo ne d \<open>ds < de\<close>] by blast
      next
        case False
        then have "\<forall>parse. v \<noteq> JFun parse"
          by blast
        then show ?thesis
          using no_parser [OF ne d \<open>ds < de\<close> Inr] matter_no_parser [OF fs fo ne d \<open>ds < de\<close> Inr] by blast
      qed
    qed
  qed
qed




lemma formatOptions_bad_lang:
  "\<not> nullish (lang ob) \<Longrightarrow> \<not> is_string (lang ob) \<Longrightarrow>
   snd (formatOptions env (Some ob)) = Inl LangNotString"
  by (cases "lang ob") (simp_all add: formatOptions_def Let_def)

lemma formatDelimiters_bad_entry:
  assumes "case d of
             JArr a \<Rightarrow> (\<not> nullish (arr_get a 0) \<and> \<not> is_string (arr_get a 0)) \<or>
                       (\<not> nullish (arr_get a 1) \<and> \<not> is_string (arr_get a 1))
           | _ \<Rightarrow> \<not> nullish d \<and> \<not> is_string d"
  shows "snd (formatDelimiters d False) = Inl DelimsInvalid"
proof (cases d)
  case (JArr a)
  show ?thesis
  proof (cases a)
    case Nil
    with JArr assms show ?thesis by (simp add: arr_get_def)
  next
    case (Cons u us)
    show ?thesis
    proof (cases us)
      case Nil
      with Cons JArr assms show ?thesis
        by (auto simp add: formatDelimiters_def Let_def arr_get_def arr_set_def)
    next
      case (Cons v vs)
      with \<open>a = u # us\<close> JArr assms show ?thesis
        by (auto simp add: formatDelimiters_def Let_def arr_get_def arr_set_def)
    qed
  qed
qed (use assms in \<open>simp_all add: formatDelimiters_def Let_def arr_get_def arr_set_def\<close>)

lemma formatOptions_bad_delims:
  assumes "nullish (lang ob) \<or> is_string (lang ob)"
    and "snd (formatDelimiters (delims ob) False) = Inl DelimsInvalid"
  shows "snd (formatOptions env (Some ob)) = Inl DelimsInvalid"
proof -
  obtain seen where "formatDelimiters (delims ob) False = (seen, Inl DelimsInvalid)"
    using assms(2) by (cases "formatDelimiters (delims ob) False") simp
  with assms(1) show ?thesis
    by (cases "lang ob") (simp_all add: formatOptions_def Let_def)
qed

lemma matter_config_error_ret:
  assumes "snd (formatOptions env opts0) = Inl e"
  shows "ret (matter env (JStr s) opts0) = Inl e \<and> calls (matter env (JStr s) opts0) = []"
proof -
  obtain seen where "formatOptions env opts0 = (seen, Inl e)"
    using assms by (cases "formatOptions env opts0") simp
  then show ?thesis by (simp add: matter_config_error)
qed


subsection \<open>The two copies of the detection\<close>

lemma char_at_nat:
  "char_at s (int i) = (if i < length s then Some (s ! i) else None)"
  by (simp add: char_at_def)

lemma char_at_last:
  "char_at s (int (length s) - 1) = (if s = [] then None else Some (last s))"
  by (cases s rule: rev_cases) (simp_all add: char_at_def nat_diff_distrib nth_append)

lemma test_locate_eq:
  "test_locate str header footer strict = matter_locate str header footer (\<not> strict)"
  by (simp add: test_locate_def matter_locate_def)

lemma test_scan_eq:
  "test_scan str bs \<longleftrightarrow> matter_scan str bs \<noteq> None"
proof (induction str bs rule: matter_scan.induct)
  case (1 str bodyStart)
  then show ?case
    by (subst test_scan.simps, subst matter_scan.simps) simp
qed

lemma test_footer_eq:
  "test_footer str footer strict bs \<longleftrightarrow> matter_footer str footer strict bs \<noteq> None"
  by (simp add: test_footer_def matter_footer_def test_scan_eq split: option.splits)

lemma test_detect_eq:
  "test_detect str header footer strict \<longleftrightarrow> matter_detect str header footer (\<not> strict) \<noteq> None"
  by (simp add: test_detect_def matter_detect_def test_locate_eq test_footer_eq
      split: option.splits prod.splits)

lemma matter_scan_line:
  "bs \<le> length str \<Longrightarrow>
   matter_scan str bs =
     (if \<forall>c \<in> set (takeWhile (\<lambda>c. c \<noteq> nl) (drop bs str)). is_space c
      then Some (bs + length (takeWhile (\<lambda>c. c \<noteq> nl) (drop bs str))) else None)"
proof (induction str bs rule: matter_scan.induct)
  case (1 str bodyStart)
  show ?case
  proof (cases "bodyStart < length str \<and> str ! bodyStart \<noteq> nl")
    case True
    then have d: "drop bodyStart str = str ! bodyStart # drop (Suc bodyStart) str"
      by (simp add: Cons_nth_drop_Suc)
    show ?thesis
    proof (cases "is_space (str ! bodyStart)")
      case sp: True
      with True 1 show ?thesis
        by (subst matter_scan.simps) (simp add: d char_at_nat)
    next
      case False
      with True show ?thesis
        by (subst matter_scan.simps) (simp add: d char_at_nat)
    qed
  next
    case False
    show ?thesis
    proof (cases "bodyStart < length str")
      case True
      with False have "drop bodyStart str = nl # drop (Suc bodyStart) str"
        using Cons_nth_drop_Suc [of bodyStart str] by simp
      with True False show ?thesis
        by (subst matter_scan.simps) (simp add: char_at_nat)
    next
      case False
      then show ?thesis
        by (subst matter_scan.simps) (simp add: char_at_nat)
    qed
  qed
qed

lemma after_line:
  "bs + length (takeWhile (\<lambda>c. c \<noteq> nl) (drop bs str)) < length str \<Longrightarrow>
   str ! (bs + length (takeWhile (\<lambda>c. c \<noteq> nl) (drop bs str))) = nl"
  using nth_length_takeWhile [of "\<lambda>c. c \<noteq> nl" "drop bs str"] by simp

lemma substr_prefix:
  "substr str 0 (length header) = header \<longleftrightarrow> prefix header str"
  by (auto simp add: substr_def prefix_def) (metis append_take_drop_id)


subsection \<open>Searching a constructed document\<close>

lemma find_from_first:
  "i \<le> length xs \<Longrightarrow> prefix pat (drop i xs) \<Longrightarrow> (\<And>j. j < i \<Longrightarrow> \<not> prefix pat (drop j xs)) \<Longrightarrow>
   find_from pat xs k = Some (k + i)"
proof (induction xs arbitrary: i k)
  case Nil
  then show ?case by simp
next
  case (Cons x xs)
  show ?case
  proof (cases i)
    case 0
    with Cons.prems show ?thesis by simp
  next
    case (Suc i')
    have "\<not> prefix pat (x # xs)"
      using Cons.prems(3) [of 0] Suc by simp
    moreover have "find_from pat xs (Suc k) = Some (Suc k + i')"
    proof (rule Cons.IH)
      show "i' \<le> length xs" using Cons.prems(1) Suc by simp
      show "prefix pat (drop i' xs)" using Cons.prems(2) Suc by simp
      show "\<not> prefix pat (drop j xs)" if "j < i'" for j
        using Cons.prems(3) [of "Suc j"] that Suc by simp
    qed
    ultimately show ?thesis using Suc by simp
  qed
qed

lemma find_from_None:
  "find_from pat xs k = None \<Longrightarrow> \<not> prefix pat (drop j xs)"
proof (induction xs arbitrary: j k)
  case Nil
  then show ?case by (simp split: if_splits)
next
  case (Cons x xs)
  then show ?case by (cases j) (auto split: if_splits)
qed

lemma no_early_footer:
  assumes nf: "nl \<notin> set f"
    and nm: "indexOf (nl # m) (nl # f) 0 = None"
    and j: "j \<le> length m"
  shows "\<not> prefix (nl # f) (drop j ((nl # m) @ nl # f @ nl # b))"
proof
  assume p: "prefix (nl # f) (drop j ((nl # m) @ nl # f @ nl # b))"
  define u where "u = drop j (nl # m)"
  have une: "u \<noteq> []" using j by (simp add: u_def)
  have nu: "\<not> prefix (nl # f) u"
    using nm find_from_None [of "nl # f" "nl # m" 0 j] by (simp add: indexOf_def u_def)
  have "drop j ((nl # m) @ nl # f @ nl # b) = u @ nl # f @ nl # b"
    unfolding u_def using j by (subst drop_append) simp
  with p have "prefix (nl # f) (u @ nl # f @ nl # b)"
    by simp
  with nu obtain us where us: "nl # f = u @ us" "prefix us (nl # f @ nl # b)"
    by (auto simp add: prefix_append)
  from us(1) nu have "us \<noteq> []" by auto
  with us(2) have "nl \<in> set us" by (cases us) auto
  moreover from us(1) une have "set us \<subseteq> set f"
    by (cases u) auto
  ultimately show False using nf by blast
qed

lemma trim_after_nl:
  "trim (nl # m) = trim m"
  by (simp add: trim_def is_space_def nl_def)

lemma locate_round_trip:
  assumes nf: "nl \<notin> set f" and nm: "indexOf (nl # m) (nl # f) 0 = None"
  shows "matter_locate (h @ nl # m @ nl # f @ nl # b) h f is_loose =
           Some (length h, length h + length m + 1)"
proof -
  let ?str = "h @ nl # m @ nl # f @ nl # b"
  have 1: "substr ?str 0 (length h) = h" by (simp add: substr_def)
  have 2: "char_at ?str (int (length h)) = Some nl" by (simp add: char_at_nat)
  have 3: "indexOf ?str [nl] (length h) = Some (length h)" by (simp add: indexOf_def)
  have "find_from (nl # f) ((nl # m) @ nl # f @ nl # b) (length h) = Some (length h + (length m + 1))"
  proof (rule find_from_first)
    show "length m + 1 \<le> length ((nl # m) @ nl # f @ nl # b)" by simp
    show "prefix (nl # f) (drop (length m + 1) ((nl # m) @ nl # f @ nl # b))" by simp
    show "\<not> prefix (nl # f) (drop j ((nl # m) @ nl # f @ nl # b))" if "j < length m + 1" for j
      using no_early_footer [OF nf nm, of j b] that by simp
  qed
  then have 4: "indexOf ?str (nl # f) (length h) = Some (length h + length m + 1)"
    by (simp add: indexOf_def)
  show ?thesis
    by (simp add: matter_locate_def 1 2 3 4 del: append.simps)
qed

lemma footer_round_trip:
  "matter_footer (h @ nl # m @ nl # f @ nl # b) f strict (length h + length m + 1 + 1 + length f) =
     Some (length h + length m + 1 + 1 + length f + 1)"
proof -
  define str where "str = h @ nl # m @ nl # f @ nl # b"
  define bs where "bs = length h + length m + 1 + 1 + length f"
  have "((h @ nl # m @ nl # f) @ nl # b) ! length (h @ nl # m @ nl # f) = nl"
    by (rule nth_append_length)
  then have nth: "str ! bs = nl"
    by (simp add: str_def bs_def add.assoc)
  have lt: "bs < length str"
    by (simp add: str_def bs_def)
  have c: "char_at str (int bs) = Some nl"
    using lt nth by (simp add: char_at_nat)
  have sc: "matter_scan str bs = Some bs"
    by (subst matter_scan.simps) (simp add: c)
  have "matter_footer str f strict bs = Some (bs + 1)"
    by (simp add: matter_footer_def c sc)
  then show ?thesis
    unfolding str_def bs_def .
qed

lemma detect_round_trip:
  assumes nf: "nl \<notin> set f" and nm: "indexOf (nl # m) (nl # f) 0 = None"
  shows "matter_detect (h @ nl # m @ nl # f @ nl # b) h f is_loose =
           Some (length h, length h + length m + 1, length h + length m + 1 + 1 + length f + 1)"
  unfolding matter_detect_def locate_round_trip [OF nf nm]
  using footer_round_trip [of h m f b "\<not> is_loose"] by simp

lemma body_round_trip:
  "substr_from (h @ nl # m @ nl # f @ nl # b) (length h + length m + 1 + 1 + length f + 1) = b"
proof -
  have "drop (length (h @ nl # m @ nl # f @ [nl])) ((h @ nl # m @ nl # f @ [nl]) @ b) = b"
    by (metis append_eq_conv_conj)
  then show ?thesis
    by (simp add: substr_from_def add.assoc)
qed


subsection \<open>matter.test against the detection of matter, the byte-order mark, failed reads\<close>

lemma formatDelimiters_nothrow_same:
  "snd (formatDelimiters d False) = Inr v \<Longrightarrow> snd (formatDelimiters d True) = Inr v"
  by (simp add: formatDelimiters_def Let_def split: if_splits)

lemma formatDelimiters_never_throws:
  "formatDelimiters d True \<noteq> (x, Inl e)"
  by (simp add: formatDelimiters_def Let_def)

lemma matter_test_never_throws:
  "snd (matter_test str given) \<noteq> Inl e"
proof -
  have "formatDelimiters d True \<noteq> (x, Inl e)" for d x
    by (rule formatDelimiters_never_throws)
  then show ?thesis
    by (cases str) (auto simp add: matter_test_def Let_def split: prod.splits sum.splits)
qed

lemma matter_test_on_accepted_options:
  assumes fo: "formatOptions env given = (seen, Inr opts)"
  shows "snd (matter_test (JStr s) given) =
           Inr (s \<noteq> [] \<and> test_detect s (header_of opts) (footer_of opts) (\<not> truthy (loose opts)))"
proof (cases given)
  case None
  with fo have o: "opts = default_opts"
    by (simp add: formatOptions_def)
  have fd: "formatDelimiters JUndefined True = (JUndefined, Inr (JArr [JStr dashes, JStr dashes]))"
    by (simp add: formatDelimiters_def arr_get_def arr_set_def)
  show ?thesis
    by (simp add: matter_test_def None o empty_opts_def fd default_opts_def header_of_def
        footer_of_def arr_get_def)
next
  case (Some ob)
  with fo have ok: "snd (formatOptions env (Some ob)) = Inr opts"
    by simp
  note f = formatOptions_Some [OF ok]
  obtain seen' where fd: "formatDelimiters (delims ob) True = (seen', Inr (delims opts))"
    using formatDelimiters_nothrow_same [OF f(5)]
    by (cases "formatDelimiters (delims ob) True") simp
  obtain seen0 where fd0: "formatDelimiters (delims ob) False = (seen0, Inr (delims opts))"
    using f(5) by (cases "formatDelimiters (delims ob) False") simp
  obtain h f' rest where d: "delims opts = JArr (JStr h # JStr f' # rest)"
    using formatDelimiters_returns [OF fd0] by auto
  show ?thesis
    by (simp add: matter_test_def Some fd d f(2) header_of_def footer_of_def)
qed

lemma test_agrees_with_detection_without_bom:
  assumes fo: "formatOptions env given = (seen, Inr opts)"
    and nb: "formatString (JStr s) = Inr s"
  shows "snd (matter_test (JStr s) given) = Inr True \<longleftrightarrow>
           s \<noteq> [] \<and> matter_detect s (header_of opts) (footer_of opts) (truthy (loose opts)) \<noteq> None"
  by (simp add: matter_test_on_accepted_options [OF fo] test_detect_eq)

lemma matter_strips_one_bom:
  assumes "char_at s 0 \<noteq> Some bom"
  shows "matter env (JStr (bom # s)) given = matter env (JStr s) given"
proof -
  have "formatString (JStr (bom # s)) = formatString (JStr s)"
    using assms by (simp add: formatString_def char_at_def substr_from_def)
  then show ?thesis
    unfolding matter_def by (simp only:)
qed

lemma readFile_done_failed_read:
  assumes "truthy err" and "\<not> is_string content"
  shows "readFile_done env fs path opts err content = ([Callback err None], Some NotAString)"
proof -
  have "formatString content = Inl NotAString"
    using assms(2) by (cases content) (simp_all add: formatString_def)
  then have "ret (matter env content (Some opts)) = Inl NotAString"
    by (simp add: matter_def)
  with assms(1) show ?thesis
    by (simp add: readFile_done_def)
qed

subsection \<open>Acceptance of options, the phases of detection, what matter returns\<close>

lemma formatOptions_ignores_parsers:
  "snd (formatOptions env (Some (ob\<lparr>parsers := p\<rparr>))) =
     (case snd (formatOptions env (Some ob)) of
        Inl e \<Rightarrow> Inl e
      | Inr opts \<Rightarrow> Inr (opts\<lparr>parsers := (if nullish p then JNull else p)\<rparr>))"
proof -
  obtain seen r where fd: "formatDelimiters (delims ob) False = (seen, r)"
    by (cases "formatDelimiters (delims ob) False")
  show ?thesis
    unfolding formatOptions_def Let_def
    by (cases "lang ob"; cases r; simp add: fd)
qed

lemma resolve_throws:
  "resolve env ps key = Inl e \<Longrightarrow> e = TypeError \<and> nullish (registry env)"
  by (cases ps) (auto simp add: resolve_def get_prop_def split: if_splits)

lemma resolve_mapping_entry:
  assumes "\<not> nullish ps" and "\<forall>p. ps \<noteq> JFun p" and "truthy (read_prop env ps key)"
  shows "resolve env ps key = Inr (read_prop env ps key)"
  using assms by (cases ps) (simp_all add: resolve_def)





lemma matter_footer_strict:
  "matter_footer str footer True bs =
     (if bs < length str \<and>
         ((footer \<noteq> [] \<and> str ! bs \<noteq> nl \<and> str ! bs = last footer) \<or>
          (\<exists>c \<in> set (takeWhile (\<lambda>c. c \<noteq> nl) (drop bs str)). \<not> is_space c))
      then None
      else Some (if bs + length (takeWhile (\<lambda>c. c \<noteq> nl) (drop bs str)) < length str
                 then bs + length (takeWhile (\<lambda>c. c \<noteq> nl) (drop bs str)) + 1
                 else bs + length (takeWhile (\<lambda>c. c \<noteq> nl) (drop bs str))))"
proof (cases "bs < length str")
  case False
  then show ?thesis
    by (simp add: matter_footer_def char_at_nat)
next
  case lt: True
  define line where "line = takeWhile (\<lambda>c. c \<noteq> nl) (drop bs str)"
  have g: "char_at str (int bs) = Some (str ! bs)"
    using lt by (simp add: char_at_nat)
  have sc: "matter_scan str bs = (if \<forall>c \<in> set line. is_space c then Some (bs + length line) else None)"
    using lt by (simp add: matter_scan_line line_def)
  have nx: "bs + length line < length str \<Longrightarrow> str ! (bs + length line) = nl"
    using after_line [of bs str] by (simp add: line_def)
  have le: "bs + length line \<le> length str"
    using length_takeWhile_le [of "\<lambda>c. c \<noteq> nl" "drop bs str"] lt by (simp add: line_def)
  have "matter_footer str footer True bs =
        (if (footer \<noteq> [] \<and> str ! bs \<noteq> nl \<and> str ! bs = last footer) \<or> (\<exists>c \<in> set line. \<not> is_space c)
         then None
         else Some (if bs + length line < length str then bs + length line + 1 else bs + length line))"
    using lt le nx by (auto simp add: matter_footer_def g char_at_last sc char_at_nat simp del: of_nat_add)
  then show ?thesis
    using lt unfolding line_def by simp
qed

lemma matter_footer_loose:
  "matter_footer str footer False bs = Some (if char_at str (int bs) = Some nl then bs + 1 else bs)"
  by (simp add: matter_footer_def)

lemma matter_locate_after_header:
  assumes "prefix header str" and "length header < length str"
  shows "matter_locate str header footer is_loose =
     (if \<not> is_loose \<and> header \<noteq> [] \<and> str ! length header \<noteq> nl \<and> str ! length header = last header
      then None
      else case indexOf str [nl] (length header) of
             None \<Rightarrow> None
           | Some ds \<Rightarrow> (case indexOf str (nl # footer) ds of None \<Rightarrow> None | Some de \<Rightarrow> Some (ds, de)))"
proof -
  have g: "char_at str (int (length header)) = Some (str ! length header)"
    using assms(2) by (simp add: char_at_nat)
  show ?thesis
    using assms by (auto simp add: matter_locate_def g char_at_last substr_prefix)
qed

lemma matter_locate_nonempty:
  "matter_locate str header footer is_loose = Some x \<Longrightarrow> str \<noteq> []"
  by (auto simp add: matter_locate_def indexOf_def split: if_splits option.splits)


lemma matter_footer_strict_accepts:
  "matter_footer str footer True bs \<noteq> None \<longleftrightarrow>
     \<not> (bs < length str \<and>
        ((footer \<noteq> [] \<and> str ! bs \<noteq> nl \<and> str ! bs = last footer) \<or>
         (\<exists>c \<in> set (takeWhile (\<lambda>c. c \<noteq> nl) (drop bs str)). \<not> is_space c)))"
  by (simp add: matter_footer_strict)

lemma matter_detect_present:
  "matter_detect str header footer is_loose \<noteq> None \<longleftrightarrow>
     (\<exists>ds de. matter_locate str header footer is_loose = Some (ds, de) \<and>
        matter_footer str footer (\<not> is_loose) (de + 1 + length footer) \<noteq> None)"
  by (auto simp add: matter_detect_def split: option.splits)

lemma matter_detect_nonempty:
  "matter_detect str header footer is_loose = Some x \<Longrightarrow> str \<noteq> []"
  by (auto simp add: matter_detect_def split: option.splits dest: matter_locate_nonempty)

lemma matter_present_returns:
  assumes fs: "formatString (JStr s) = Inr str"
    and fo: "formatOptions env given = (seen, Inr opts)"
    and d: "matter_detect str (header_of opts) (footer_of opts) (truthy (loose opts)) = Some (ds, de, bs)"
  shows "\<forall>r. ret (matter env (JStr s) given) = Inr r \<longrightarrow> body r = drop bs str"
    and "ds = de \<longrightarrow>
           ret (matter env (JStr s) given) = Inr \<lparr>src = str, data = JNull, body = drop bs str\<rparr>"
    and "\<forall>parse v. ds < de \<and>
           resolve env (parsers opts) (lang_of env str (header_of opts) ds opts) = Inr (JFun parse) \<and>
           parse (trim (substr str ds (de - ds))) (truthy (loose opts)) = Inr v \<longrightarrow>
           ret (matter env (JStr s) given) = Inr \<lparr>src = str, data = v, body = drop bs str\<rparr>"
proof -
  have ne: "str \<noteq> []"
    using d by (rule matter_detect_nonempty)
  from fs fo show "\<forall>r. ret (matter env (JStr s) given) = Inr r \<longrightarrow> body r = drop bs str"
  proof (cases rule: matter_cases)
    case absent
    with ne d show ?thesis by simp
  next
    case (empty_span ds' de' bs')
    with d show ?thesis by (auto simp add: substr_from_def)
  next
    case (called ds' de' bs' parse)
    with d show ?thesis by (auto simp add: substr_from_def split: sum.splits)
  next
    case (no_parser ds' de' bs' v)
    then show ?thesis by simp
  next
    case (lookup_failed ds' de' bs' e)
    then show ?thesis by simp
  qed
  show "ds = de \<longrightarrow>
           ret (matter env (JStr s) given) = Inr \<lparr>src = str, data = JNull, body = drop bs str\<rparr>"
    using matter_empty_span [OF fs fo ne d] by (simp add: substr_from_def)
  show "\<forall>parse v. ds < de \<and>
           resolve env (parsers opts) (lang_of env str (header_of opts) ds opts) = Inr (JFun parse) \<and>
           parse (trim (substr str ds (de - ds))) (truthy (loose opts)) = Inr v \<longrightarrow>
           ret (matter env (JStr s) given) = Inr \<lparr>src = str, data = v, body = drop bs str\<rparr>"
    using matter_parser_called [OF fs fo ne d] by (auto simp add: substr_from_def)
qed


subsection \<open>A failed read in matter.readFile\<close>

text \<open>
  C5. When the read fails, \<open>fs.readFile\<close> calls back with an error and no content. The
  claim is that the error reaches the user's callback exactly once, with no result and no
  uncaught exception. The code calls the user's callback once with \<open>(err, null)\<close> and then,
  for lack of a \<open>return\<close>, goes on to \<open>matter(content, opts)\<close> with \<open>content\<close> undefined,
  which throws the "must be of type String" error out of the asynchronous callback
  (lemma \<open>readFile_done_failed_read\<close>, for every failed read).
\<close>

theorem readFile_failed_read_throws_after_callback:
  "cb_calls (readFile sample_env no_files (js ''missing.md'') ArgFun False) = [Callback enoent None] \<and>
   thrown (readFile sample_env no_files (js ''missing.md'') ArgFun False) = None \<and>
   uncaught (readFile sample_env no_files (js ''missing.md'') ArgFun False) = Some NotAString"
  by (simp add: readFile_def readFile_done_def no_files_def enoent_def formatOptions_def
      matter_def formatString_def default_opts_def)

subsection \<open>The byte-order mark and matter.test\<close>

text \<open>
  C1. The claim is that \<open>matter.test(s, opts)\<close> is true exactly when the detection phase
  of \<open>matter(s, opts)\<close> locates a block. \<open>matter\<close> removes a leading byte-order mark in
  \<open>formatString\<close> before it detects; \<open>matter.test\<close> never calls \<open>formatString\<close>. On the
  text "---", linefeed, "foo", linefeed, "---" behind a byte-order mark, \<open>matter\<close> locates
  the block and parses "foo", while \<open>matter.test\<close> answers false. On a text without a
  leading mark, under options that \<open>formatOptions\<close> accepts, the two do agree: lemma
  \<open>test_agrees_with_detection_without_bom\<close>.
\<close>

theorem test_false_where_matter_extracts:
  "snd (matter_test (JStr (bom # js ''---\<newline>foo\<newline>---'')) None) = Inr False \<and>
   ret (matter sample_env (JStr (bom # js ''---\<newline>foo\<newline>---'')) None) =
     Inr \<lparr>src = js ''---\<newline>foo\<newline>---'', data = JStr (js ''foo''), body = []\<rparr> \<and>
   calls (matter sample_env (JStr (bom # js ''---\<newline>foo\<newline>---'')) None) = [(js ''foo'', False)]"
  by (simp add: eval_defs)

text \<open>
  C9. The claim is that a text behind a single byte-order mark behaves as the text
  without it: same body, same data, same answer of the presence check. \<open>matter\<close> does
  return the same for both when the text has no mark of its own (lemma
  \<open>matter_strips_one_bom\<close>), but \<open>matter.test\<close> answers true for "---", linefeed, "---"
  and false for the same text behind a byte-order mark.
\<close>

theorem bom_changes_answer_of_test:
  "snd (matter_test (JStr (js ''---\<newline>---'')) None) = Inr True \<and>
   snd (matter_test (JStr (bom # js ''---\<newline>---'')) None) = Inr False \<and>
   ret (matter sample_env (JStr (bom # js ''---\<newline>---'')) None) =
     ret (matter sample_env (JStr (js ''---\<newline>---'')) None)"
  by (simp add: eval_defs)

subsection \<open>The result of matter\<close>

text \<open>
  C4. For a string input and options that \<open>formatOptions\<close> accepts, every result that
  \<open>matter\<close> returns has \<open>src\<close> equal to the formatted text, \<open>body\<close> a suffix of \<open>src\<close> and
  no longer than it; and when the detection phase finds no block (or the text is empty)
  \<open>matter\<close> does return, with \<open>body\<close> equal to \<open>src\<close> and \<open>data\<close> null.
\<close>

theorem matter_body_is_suffix_of_src:
  assumes fs: "formatString (JStr s) = Inr str"
    and fo: "formatOptions env opts0 = (seen, Inr opts)"
  shows "(\<forall>r. ret (matter env (JStr s) opts0) = Inr r \<longrightarrow>
            src r = str \<and> suffix (body r) (src r) \<and> length (body r) \<le> length (src r)) \<and>
         (str = [] \<or> matter_detect str (header_of opts) (footer_of opts) (truthy (loose opts)) = None \<longrightarrow>
            ret (matter env (JStr s) opts0) = Inr \<lparr>src = str, data = JNull, body = str\<rparr>)"
  using fs fo
proof (cases rule: matter_cases)
  case absent
  then show ?thesis by simp
next
  case (empty_span ds de bs)
  then show ?thesis by (auto simp: substr_from_def suffix_drop)
next
  case (called ds de bs parse)
  then show ?thesis by (auto simp: substr_from_def suffix_drop split: sum.splits)
next
  case (no_parser ds de bs v)
  then show ?thesis by simp
next
  case (lookup_failed ds de bs e)
  then show ?thesis by simp
qed

theorem matter_body_is_suffix_of_src_witness:
  "formatString (JStr (js ''---\<newline>foo\<newline>---\<newline>bar'')) = Inr (js ''---\<newline>foo\<newline>---\<newline>bar'') \<and>
   formatOptions sample_env None = (None, Inr default_opts) \<and>
   ret (matter sample_env (JStr (js ''---\<newline>foo\<newline>---\<newline>bar'')) None) =
     Inr \<lparr>src = js ''---\<newline>foo\<newline>---\<newline>bar'', data = JStr (js ''foo''), body = js ''bar''\<rparr> \<and>
   suffix (js ''bar'') (js ''---\<newline>foo\<newline>---\<newline>bar'') \<and>
   formatString (JStr (js ''foobar'')) = Inr (js ''foobar'') \<and>
   matter_detect (js ''foobar'') (header_of default_opts) (footer_of default_opts)
     (truthy (loose default_opts)) = None \<and>
   ret (matter sample_env (JStr (js ''foobar'')) None) =
     Inr \<lparr>src = js ''foobar'', data = JNull, body = js ''foobar''\<rparr>"
proof -
  let ?doc = "js ''---\<newline>foo\<newline>---\<newline>bar''"
  have fs: "formatString (JStr ?doc) = Inr ?doc"
    by (simp add: eval_defs)
  have fo: "formatOptions sample_env None = (None, Inr default_opts)"
    by (simp add: formatOptions_def)
  have r: "ret (matter sample_env (JStr ?doc) None) =
             Inr \<lparr>src = ?doc, data = JStr (js ''foo''), body = js ''bar''\<rparr>"
    by (simp add: eval_defs)
  have "suffix (body \<lparr>src = ?doc, data = JStr (js ''foo''), body = js ''bar''\<rparr>)
          (src \<lparr>src = ?doc, data = JStr (js ''foo''), body = js ''bar''\<rparr>)"
    using matter_body_is_suffix_of_src [OF fs fo] r by blast
  then have suf: "suffix (js ''bar'') ?doc"
    by simp
  have fs': "formatString (JStr (js ''foobar'')) = Inr (js ''foobar'')"
    by (simp add: eval_defs)
  have none: "matter_detect (js ''foobar'') (header_of default_opts) (footer_of default_opts)
                (truthy (loose default_opts)) = None"
    by (simp add: eval_defs)
  have "ret (matter sample_env (JStr (js ''foobar'')) None) =
          Inr \<lparr>src = js ''foobar'', data = JNull, body = js ''foobar''\<rparr>"
    using matter_body_is_suffix_of_src [OF fs' fo] none by blast
  with fs fo r suf fs' none show ?thesis
    by blast
qed

subsection \<open>What a call does to the caller's options\<close>





subsection \<open>Errors of configuration and of resolution\<close>

text \<open>
  C6. The claim is that a non-function value in a \<open>parsers\<close> mapping, like a non-string
  \<open>lang\<close> or \<open>delims\<close> entry, raises a configuration error before detection. As amended:
  a \<open>lang\<close> that is neither missing nor a string, and a \<open>delims\<close> value whose entry 0 or 1
  (or the value itself, when it is not an array) is neither missing nor a string, raise
  their error for every text, with no parser called. \<open>formatOptions\<close> does not look into
  \<open>parsers\<close>: whatever value it holds, the same options are accepted or refused with the
  same error, and the value is passed on (\<open>null\<close> when missing). Under accepted options
  \<open>matter\<close> throws only after detection has located a block whose \<open>dataStart\<close> is below
  \<open>dataEnd\<close>; if it throws without having called a parser, the error is "No parser found"
  for the resolved language, whose resolved value is not a function, or the error of
  reading \<open>matter.parsers[lang]\<close> when \<open>matter.parsers\<close> is \<open>null\<close> or \<open>undefined\<close>. In
  particular a mapping whose value for the language is truthy and not a function gives
  "No parser found" on such a block.
\<close>

theorem config_errors_precede_detection:
  "(\<not> nullish (lang ob) \<and> \<not> is_string (lang ob) \<longrightarrow>
      ret (matter env (JStr s) (Some ob)) = Inl LangNotString \<and>
      calls (matter env (JStr s) (Some ob)) = []) \<and>
   ((nullish (lang ob) \<or> is_string (lang ob)) \<and>
    (case delims ob of
       JArr a \<Rightarrow> (\<not> nullish (arr_get a 0) \<and> \<not> is_string (arr_get a 0)) \<or>
                 (\<not> nullish (arr_get a 1) \<and> \<not> is_string (arr_get a 1))
     | _ \<Rightarrow> \<not> nullish (delims ob) \<and> \<not> is_string (delims ob)) \<longrightarrow>
      ret (matter env (JStr s) (Some ob)) = Inl DelimsInvalid \<and>
      calls (matter env (JStr s) (Some ob)) = []) \<and>
   snd (formatOptions env (Some (ob\<lparr>parsers := p\<rparr>))) =
     (case snd (formatOptions env (Some ob)) of
        Inl e \<Rightarrow> Inl e
      | Inr opts \<Rightarrow> Inr (opts\<lparr>parsers := (if nullish p then JNull else p)\<rparr>)) \<and>
   (formatString (JStr s) = Inr str \<and> formatOptions env given = (seen, Inr opts) \<and>
    ret (matter env (JStr s) given) = Inl e \<longrightarrow>
      (\<exists>ds de bs. str \<noteq> [] \<and>
         matter_detect str (header_of opts) (footer_of opts) (truthy (loose opts)) = Some (ds, de, bs) \<and>
         ds < de \<and>
         (calls (matter env (JStr s) given) = [] \<longrightarrow>
            (e = TypeError \<and> nullish (registry env) \<and>
             resolve env (parsers opts) (lang_of env str (header_of opts) ds opts) = Inl TypeError) \<or>
            (e = NoParser (lang_of env str (header_of opts) ds opts) \<and>
             (\<exists>v. resolve env (parsers opts) (lang_of env str (header_of opts) ds opts) = Inr v \<and>
                  (\<forall>parse. v \<noteq> JFun parse)))))) \<and>
   (formatString (JStr s) = Inr str \<and> formatOptions env given = (seen, Inr opts) \<and> str \<noteq> [] \<and>
    matter_detect str (header_of opts) (footer_of opts) (truthy (loose opts)) = Some (ds, de, bs) \<and>
    ds < de \<and> \<not> nullish (parsers opts) \<and> (\<forall>f. parsers opts \<noteq> JFun f) \<and>
    truthy (read_prop env (parsers opts) (lang_of env str (header_of opts) ds opts)) \<and>
    (\<forall>parse. read_prop env (parsers opts) (lang_of env str (header_of opts) ds opts) \<noteq> JFun parse) \<longrightarrow>
      ret (matter env (JStr s) given) = Inl (NoParser (lang_of env str (header_of opts) ds opts)) \<and>
      calls (matter env (JStr s) given) = [])"
proof (intro conjI impI)
  assume "\<not> nullish (lang ob) \<and> \<not> is_string (lang ob)"
  then have "snd (formatOptions env (Some ob)) = Inl LangNotString"
    by (simp add: formatOptions_bad_lang)
  then show "ret (matter env (JStr s) (Some ob)) = Inl LangNotString"
    and "calls (matter env (JStr s) (Some ob)) = []"
    by (simp_all add: matter_config_error_ret)
next
  assume a: "(nullish (lang ob) \<or> is_string (lang ob)) \<and>
    (case delims ob of
       JArr a \<Rightarrow> (\<not> nullish (arr_get a 0) \<and> \<not> is_string (arr_get a 0)) \<or>
                 (\<not> nullish (arr_get a 1) \<and> \<not> is_string (arr_get a 1))
     | _ \<Rightarrow> \<not> nullish (delims ob) \<and> \<not> is_string (delims ob))"
  then have "snd (formatDelimiters (delims ob) False) = Inl DelimsInvalid"
    by (intro formatDelimiters_bad_entry) simp
  with a have "snd (formatOptions env (Some ob)) = Inl DelimsInvalid"
    by (simp add: formatOptions_bad_delims)
  then show "ret (matter env (JStr s) (Some ob)) = Inl DelimsInvalid"
    and "calls (matter env (JStr s) (Some ob)) = []"
    by (simp_all add: matter_config_error_ret)
next
  show "snd (formatOptions env (Some (ob\<lparr>parsers := p\<rparr>))) =
     (case snd (formatOptions env (Some ob)) of
        Inl e \<Rightarrow> Inl e
      | Inr opts \<Rightarrow> Inr (opts\<lparr>parsers := (if nullish p then JNull else p)\<rparr>))"
    by (rule formatOptions_ignores_parsers)
next
  assume a: "formatString (JStr s) = Inr str \<and> formatOptions env given = (seen, Inr opts) \<and>
    ret (matter env (JStr s) given) = Inl e"
  then have fs: "formatString (JStr s) = Inr str"
    and fo: "formatOptions env given = (seen, Inr opts)"
    and err: "ret (matter env (JStr s) given) = Inl e"
    by simp_all
  from fs fo show "\<exists>ds de bs. str \<noteq> [] \<and>
         matter_detect str (header_of opts) (footer_of opts) (truthy (loose opts)) = Some (ds, de, bs) \<and>
         ds < de \<and>
         (calls (matter env (JStr s) given) = [] \<longrightarrow>
            (e = TypeError \<and> nullish (registry env) \<and>
             resolve env (parsers opts) (lang_of env str (header_of opts) ds opts) = Inl TypeError) \<or>
            (e = NoParser (lang_of env str (header_of opts) ds opts) \<and>
             (\<exists>v. resolve env (parsers opts) (lang_of env str (header_of opts) ds opts) = Inr v \<and>
                  (\<forall>parse. v \<noteq> JFun parse))))"
  proof (cases rule: matter_cases)
    case absent
    with err show ?thesis by simp
  next
    case (empty_span ds de bs)
    with err show ?thesis by simp
  next
    case (called ds de bs parse)
    then show ?thesis by auto
  next
    case (no_parser ds de bs v)
    with err show ?thesis by auto
  next
    case (lookup_failed ds de bs e')
    with err resolve_throws [of env "parsers opts" "lang_of env str (header_of opts) ds opts" e']
    show ?thesis by auto
  qed
next
  assume a: "formatString (JStr s) = Inr str \<and> formatOptions env given = (seen, Inr opts) \<and> str \<noteq> [] \<and>
    matter_detect str (header_of opts) (footer_of opts) (truthy (loose opts)) = Some (ds, de, bs) \<and>
    ds < de \<and> \<not> nullish (parsers opts) \<and> (\<forall>f. parsers opts \<noteq> JFun f) \<and>
    truthy (read_prop env (parsers opts) (lang_of env str (header_of opts) ds opts)) \<and>
    (\<forall>parse. read_prop env (parsers opts) (lang_of env str (header_of opts) ds opts) \<noteq> JFun parse)"
  then have fs: "formatString (JStr s) = Inr str"
    and fo: "formatOptions env given = (seen, Inr opts)"
    and ne: "str \<noteq> []"
    and d: "matter_detect str (header_of opts) (footer_of opts) (truthy (loose opts)) = Some (ds, de, bs)"
    and lt: "ds < de"
    and nn: "\<not> nullish (parsers opts)"
    and nf: "\<forall>f. parsers opts \<noteq> JFun f"
    and tr: "truthy (read_prop env (parsers opts) (lang_of env str (header_of opts) ds opts))"
    and np: "\<forall>parse. read_prop env (parsers opts) (lang_of env str (header_of opts) ds opts) \<noteq> JFun parse"
    by blast+
  have r: "resolve env (parsers opts) (lang_of env str (header_of opts) ds opts) =
             Inr (read_prop env (parsers opts) (lang_of env str (header_of opts) ds opts))"
    using nn nf tr by (rule resolve_mapping_entry)
  have "matter env (JStr s) given =
     \<lparr>opts_after = seen, calls = [], ret = Inl (NoParser (lang_of env str (header_of opts) ds opts))\<rparr>"
    using fs fo ne d lt r np by (rule matter_no_parser)
  then show "ret (matter env (JStr s) given) = Inl (NoParser (lang_of env str (header_of opts) ds opts))"
    and "calls (matter env (JStr s) given) = []"
    by simp_all
qed

theorem unchecked_parsers_entry_raises_nothing:
  "parsers bad_parser_opts = JObj [(yaml_name, JBool True)] \<and>
   ret (matter sample_env (JStr (js ''foobar'')) (Some bad_parser_opts)) =
     Inr \<lparr>src = js ''foobar'', data = JNull, body = js ''foobar''\<rparr>"
  by (simp add: eval_defs)


theorem config_errors_precede_detection_witness:
  "\<not> nullish (lang lang_false_opts) \<and> \<not> is_string (lang lang_false_opts) \<and>
   ret (matter sample_env (JStr (js ''foobar'')) (Some lang_false_opts)) = Inl LangNotString \<and>
   nullish (lang delims_false_opts) \<and> delims delims_false_opts = JArr [JNull, JBool False] \<and>
   ret (matter sample_env (JStr (js ''foobar'')) (Some delims_false_opts)) = Inl DelimsInvalid \<and>
   snd (formatOptions sample_env (Some (empty_opts\<lparr>parsers := JObj [(yaml_name, JBool True)]\<rparr>))) =
     Inr \<lparr>loose = JBool False, lang = JStr yaml_name,
          delims = JArr [JStr dashes, JStr dashes], parsers = JObj [(yaml_name, JBool True)]\<rparr> \<and>
   matter_detect (js ''---\<newline>foo: bar\<newline>---'') dashes dashes False = Some (3, 12, 16) \<and>
   ret (matter sample_env (JStr (js ''---\<newline>foo: bar\<newline>---'')) (Some bad_parser_opts)) =
     Inl (NoParser yaml_name) \<and>
   calls (matter sample_env (JStr (js ''---\<newline>foo: bar\<newline>---'')) (Some bad_parser_opts)) = [] \<and>
   ret (matter no_registry_env (JStr (js ''---\<newline>foo: bar\<newline>---'')) None) = Inl TypeError \<and>
   resolve no_registry_env JNull yaml_name = Inl TypeError"
proof -
  have l: "\<not> nullish (lang lang_false_opts) \<and> \<not> is_string (lang lang_false_opts)"
    by (simp add: eval_defs)
  then have 1: "ret (matter sample_env (JStr (js ''foobar'')) (Some lang_false_opts)) = Inl LangNotString"
    using config_errors_precede_detection [where ob = lang_false_opts and env = sample_env and s = "js ''foobar''"] by blast
  have d: "nullish (lang delims_false_opts)" "delims delims_false_opts = JArr [JNull, JBool False]"
    by (simp_all add: eval_defs)
  have d': "(nullish (lang delims_false_opts) \<or> is_string (lang delims_false_opts)) \<and>
    (case delims delims_false_opts of
       JArr a \<Rightarrow> (\<not> nullish (arr_get a 0) \<and> \<not> is_string (arr_get a 0)) \<or>
                 (\<not> nullish (arr_get a 1) \<and> \<not> is_string (arr_get a 1))
     | _ \<Rightarrow> \<not> nullish (delims delims_false_opts) \<and> \<not> is_string (delims delims_false_opts))"
    by (simp add: d arr_get_def)
  have 2: "ret (matter sample_env (JStr (js ''foobar'')) (Some delims_false_opts)) = Inl DelimsInvalid"
    using config_errors_precede_detection [where ob = delims_false_opts and env = sample_env and s = "js ''foobar''"] d' by blast
  let ?doc = "js ''---\<newline>foo: bar\<newline>---''"
  let ?bad = "JObj [(yaml_name, JBool True)]"
  let ?n = "\<lparr>loose = JBool False, lang = JStr yaml_name,
             delims = JArr [JStr dashes, JStr dashes], parsers = ?bad\<rparr>"
  have e: "snd (formatOptions sample_env (Some empty_opts)) =
             Inr \<lparr>loose = JBool False, lang = JStr yaml_name,
                  delims = JArr [JStr dashes, JStr dashes], parsers = JNull\<rparr>"
    by (simp add: eval_defs)
  have 3: "snd (formatOptions sample_env (Some (empty_opts\<lparr>parsers := ?bad\<rparr>))) = Inr ?n"
    using config_errors_precede_detection [where ob = empty_opts and env = sample_env and p = ?bad, THEN conjunct2, THEN conjunct2,
        THEN conjunct1]
    unfolding e by simp
  have fs: "formatString (JStr ?doc) = Inr ?doc"
    by (simp add: eval_defs)
  have fo: "formatOptions sample_env (Some bad_parser_opts) = (Some ?n, Inr ?n)"
    by (simp add: eval_defs)
  have h: "header_of ?n = dashes" "footer_of ?n = dashes" "truthy (loose ?n) = False"
    "lang_of sample_env ?doc dashes 3 ?n = yaml_name" "parsers ?n = ?bad"
    by (simp_all add: eval_defs)
  have det: "matter_detect ?doc dashes dashes False = Some (3, 12, 16)"
    by (simp add: eval_defs)
  have rd: "read_prop sample_env ?bad yaml_name = JBool True"
    by (simp add: eval_defs)
  have pre: "formatString (JStr ?doc) = Inr ?doc \<and>
      formatOptions sample_env (Some bad_parser_opts) = (Some ?n, Inr ?n) \<and> ?doc \<noteq> [] \<and>
      matter_detect ?doc (header_of ?n) (footer_of ?n) (truthy (loose ?n)) = Some (3, 12, 16) \<and>
      (3::nat) < 12 \<and> \<not> nullish (parsers ?n) \<and> (\<forall>f. parsers ?n \<noteq> JFun f) \<and>
      truthy (read_prop sample_env (parsers ?n) (lang_of sample_env ?doc (header_of ?n) 3 ?n)) \<and>
      (\<forall>parse. read_prop sample_env (parsers ?n) (lang_of sample_env ?doc (header_of ?n) 3 ?n) \<noteq> JFun parse)"
    using fs fo det by (simp add: h rd) (simp add: js_def)
  have 4: "ret (matter sample_env (JStr ?doc) (Some bad_parser_opts)) = Inl (NoParser yaml_name) \<and>
           calls (matter sample_env (JStr ?doc) (Some bad_parser_opts)) = []"
    using config_errors_precede_detection [where s = ?doc and str = ?doc and env = sample_env and given = "Some bad_parser_opts"
        and seen = "Some ?n" and opts = ?n and ds = 3 and de = 12 and bs = 16,
        THEN conjunct2, THEN conjunct2, THEN conjunct2, THEN conjunct2, rule_format, OF pre]
    by (simp add: h)
  have 5: "ret (matter no_registry_env (JStr ?doc) None) = Inl TypeError"
    "resolve no_registry_env JNull yaml_name = Inl TypeError"
    by (simp_all add: eval_defs)
  from l 1 d 2 3 det 4 5 show ?thesis by blast
qed

subsection \<open>When a parser is called\<close>

text \<open>
  C7. The claim is that a block with \<open>dataStart = dataEnd\<close> is present with no parser
  called and \<open>data\<close> null, and that a parser is called only when the trimmed metadata is
  not empty. As amended: with \<open>dataStart = dataEnd\<close> no parser is called and the result has
  \<open>data\<close> null and the body after the block; a parser is called exactly when \<open>dataStart\<close>
  is below \<open>dataEnd\<close> and a function is resolved for the language, and it receives the
  trimmed text between them, which may be the empty string.
\<close>

theorem parser_called_iff_span_nonempty:
  assumes fs: "formatString (JStr s) = Inr str"
    and fo: "formatOptions env given = (seen, Inr opts)"
  shows
    "(\<forall>ds de bs. str \<noteq> [] \<and>
        matter_detect str (header_of opts) (footer_of opts) (truthy (loose opts)) = Some (ds, de, bs) \<and>
        ds = de \<longrightarrow>
          calls (matter env (JStr s) given) = [] \<and>
          ret (matter env (JStr s) given) =
            Inr \<lparr>src = str, data = JNull, body = substr_from str bs\<rparr>) \<and>
     (\<forall>ds de bs parse. str \<noteq> [] \<and>
        matter_detect str (header_of opts) (footer_of opts) (truthy (loose opts)) = Some (ds, de, bs) \<and>
        ds < de \<and>
        resolve env (parsers opts) (lang_of env str (header_of opts) ds opts) = Inr (JFun parse) \<longrightarrow>
          calls (matter env (JStr s) given) =
            [(trim (substr str ds (de - ds)), truthy (loose opts))]) \<and>
     (calls (matter env (JStr s) given) \<noteq> [] \<longrightarrow>
        (\<exists>ds de bs parse. str \<noteq> [] \<and>
           matter_detect str (header_of opts) (footer_of opts) (truthy (loose opts)) = Some (ds, de, bs) \<and>
           ds < de \<and>
           resolve env (parsers opts) (lang_of env str (header_of opts) ds opts) = Inr (JFun parse)))"
  using fs fo
proof (cases rule: matter_cases)
  case absent
  then show ?thesis by auto
next
  case (empty_span ds de bs)
  then show ?thesis by auto
next
  case (called ds de bs parse)
  then show ?thesis by auto
next
  case (no_parser ds de bs v)
  then show ?thesis by auto
next
  case (lookup_failed ds de bs e)
  then show ?thesis by auto
qed


theorem parser_called_on_blank_metadata:
  "matter_detect (js ''---\<newline> \<newline>---'') dashes dashes False = Some (3, 5, 9) \<and>
   trim (substr (js ''---\<newline> \<newline>---'') 3 (5 - 3)) = [] \<and>
   calls (matter sample_env (JStr (js ''---\<newline> \<newline>---'')) None) = [([], False)]"
  by (simp add: eval_defs)


theorem parser_called_iff_span_nonempty_witness:
  "formatOptions sample_env None = (None, Inr default_opts) \<and>
   formatString (JStr (js ''---\<newline>---'')) = Inr (js ''---\<newline>---'') \<and>
   matter_detect (js ''---\<newline>---'') (header_of default_opts) (footer_of default_opts)
     (truthy (loose default_opts)) = Some (3, 3, 7) \<and>
   calls (matter sample_env (JStr (js ''---\<newline>---'')) None) = [] \<and>
   ret (matter sample_env (JStr (js ''---\<newline>---'')) None) =
     Inr \<lparr>src = js ''---\<newline>---'', data = JNull, body = []\<rparr> \<and>
   formatString (JStr (js ''---\<newline>a\<newline>---'')) = Inr (js ''---\<newline>a\<newline>---'') \<and>
   matter_detect (js ''---\<newline>a\<newline>---'') (header_of default_opts) (footer_of default_opts)
     (truthy (loose default_opts)) = Some (3, 5, 9) \<and>
   resolve sample_env (parsers default_opts)
     (lang_of sample_env (js ''---\<newline>a\<newline>---'') (header_of default_opts) 3 default_opts) = Inr (JFun echo) \<and>
   calls (matter sample_env (JStr (js ''---\<newline>a\<newline>---'')) None) = [(js ''a'', False)]"
proof -
  have fo: "formatOptions sample_env None = (None, Inr default_opts)"
    by (simp add: formatOptions_def)
  let ?e = "js ''---\<newline>---''"
  have fs1: "formatString (JStr ?e) = Inr ?e"
    by (simp add: eval_defs)
  have d1: "matter_detect ?e (header_of default_opts) (footer_of default_opts)
              (truthy (loose default_opts)) = Some (3, 3, 7)"
    by (simp add: eval_defs)
  have ne1: "?e \<noteq> []" by (simp add: js_def)
  have r1: "calls (matter sample_env (JStr ?e) None) = [] \<and>
            ret (matter sample_env (JStr ?e) None) =
              Inr \<lparr>src = ?e, data = JNull, body = substr_from ?e 7\<rparr>"
    using parser_called_iff_span_nonempty [OF fs1 fo] d1 ne1 by blast
  have b1: "substr_from ?e 7 = []"
    by (simp add: substr_from_def js_def)
  let ?a = "js ''---\<newline>a\<newline>---''"
  have fs2: "formatString (JStr ?a) = Inr ?a"
    by (simp add: eval_defs)
  have d2: "matter_detect ?a (header_of default_opts) (footer_of default_opts)
              (truthy (loose default_opts)) = Some (3, 5, 9)"
    by (simp add: eval_defs)
  have ne2: "?a \<noteq> []" by (simp add: js_def)
  have lt: "(3::nat) < 5" by simp
  have p2: "resolve sample_env (parsers default_opts)
              (lang_of sample_env ?a (header_of default_opts) 3 default_opts) = Inr (JFun echo)"
    by (simp add: eval_defs)
  have "calls (matter sample_env (JStr ?a) None) =
          [(trim (substr ?a 3 (5 - 3)), truthy (loose default_opts))]"
    using parser_called_iff_span_nonempty [OF fs2 fo] d2 ne2 p2 lt by blast
  moreover have "trim (substr ?a 3 (5 - 3)) = js ''a''" "truthy (loose default_opts) = False"
    by (simp_all add: eval_defs)
  ultimately have r2: "calls (matter sample_env (JStr ?a) None) = [(js ''a'', False)]"
    by simp
  from fo fs1 d1 r1 b1 fs2 d2 p2 r2 show ?thesis
    by simp
qed

subsection \<open>The guards of strict mode\<close>

text \<open>
  C2. The claim is that in strict mode, on a text that starts with the header and is
  longer than it, detection rejects exactly when the character after the header is not a
  linefeed and equals the last character of the header. As amended: in strict mode, on
  such a text, detection rejects whenever that is so: no block is detected, \<open>matter.test\<close>
  answers false and \<open>matter\<close> returns the text unchanged. When it is not so, the later
  steps alone decide: a block is detected exactly when a linefeed is found from the end of
  the header on, linefeed plus footer is found from that linefeed on, and the text after
  the footer passes the check of strict mode. In loose mode the guard is not applied: a
  block is detected exactly when the two searches succeed, whatever follows the header.
  With header "---", the text "----", linefeed, "---" is rejected by \<open>matter.test\<close> in
  strict mode and accepted in loose mode.
\<close>

theorem header_guard_then_later_steps:
  assumes fo: "formatOptions env given = (seen, Inr opts)"
    and fs: "formatString (JStr str) = Inr str"
    and pre: "prefix (header_of opts) str"
    and longer: "length (header_of opts) < length str"
  shows
    "(let header = header_of opts; footer = footer_of opts;
          following = str ! length header;
          extends = (header \<noteq> [] \<and> following \<noteq> nl \<and> following = last header);
          found = (case indexOf str [nl] (length header) of
                     None \<Rightarrow> None
                   | Some ds \<Rightarrow> (case indexOf str (nl # footer) ds of
                                  None \<Rightarrow> None
                                | Some de \<Rightarrow> Some (ds, de)));
          footer_ok = (\<lambda>de. \<not> (de + 1 + length footer < length str \<and>
                         ((footer \<noteq> [] \<and> str ! (de + 1 + length footer) \<noteq> nl \<and>
                           str ! (de + 1 + length footer) = last footer) \<or>
                          (\<exists>c \<in> set (takeWhile (\<lambda>c. c \<noteq> nl) (drop (de + 1 + length footer) str)).
                             \<not> is_space c))))
      in (\<not> truthy (loose opts) \<longrightarrow>
            (extends \<longrightarrow>
               matter_detect str header footer False = None \<and>
               snd (matter_test (JStr str) given) = Inr False \<and>
               matter env (JStr str) given =
                 \<lparr>opts_after = seen, calls = [],
                  ret = Inr \<lparr>src = str, data = JNull, body = str\<rparr>\<rparr>) \<and>
            (\<not> extends \<longrightarrow>
               (matter_detect str header footer False \<noteq> None \<longleftrightarrow>
                  (\<exists>ds de. found = Some (ds, de) \<and> footer_ok de)) \<and>
               snd (matter_test (JStr str) given) =
                  Inr (\<exists>ds de. found = Some (ds, de) \<and> footer_ok de))) \<and>
         (truthy (loose opts) \<longrightarrow>
            (matter_detect str header footer True \<noteq> None \<longleftrightarrow> found \<noteq> None) \<and>
            snd (matter_test (JStr str) given) = Inr (found \<noteq> None))) \<and>
     snd (matter_test (JStr (js ''----\<newline>---'')) None) = Inr False \<and>
     snd (matter_test (JStr (js ''----\<newline>---'')) (Some loose_opts)) = Inr True"
proof -
  define header where "header = header_of opts"
  define footer where "footer = footer_of opts"
  define extends where
    "extends \<longleftrightarrow> header \<noteq> [] \<and> str ! length header \<noteq> nl \<and> str ! length header = last header"
  define found where
    "found = (case indexOf str [nl] (length header) of
                None \<Rightarrow> None
              | Some ds \<Rightarrow> (case indexOf str (nl # footer) ds of
                             None \<Rightarrow> None
                           | Some de \<Rightarrow> Some (ds, de)))"
  define footer_ok where
    "footer_ok = (\<lambda>de. \<not> (de + 1 + length footer < length str \<and>
                         ((footer \<noteq> [] \<and> str ! (de + 1 + length footer) \<noteq> nl \<and>
                           str ! (de + 1 + length footer) = last footer) \<or>
                          (\<exists>c \<in> set (takeWhile (\<lambda>c. c \<noteq> nl) (drop (de + 1 + length footer) str)).
                             \<not> is_space c))))"
  have ne: "str \<noteq> []"
    using longer by auto
  have loc: "matter_locate str header footer is_loose = (if \<not> is_loose \<and> extends then None else found)"
    for is_loose
    using matter_locate_after_header [of header str footer is_loose] pre longer
    unfolding header_def [symmetric] extends_def found_def by simp
  have acc: "matter_footer str footer True (de + 1 + length footer) \<noteq> None \<longleftrightarrow> footer_ok de" for de
    unfolding footer_ok_def by (rule matter_footer_strict_accepts)
  have acc': "matter_footer str footer False bs \<noteq> None" for bs
    by (simp add: matter_footer_loose)
  have md: "matter_detect str header footer False \<noteq> None \<longleftrightarrow>
      (\<exists>ds de. matter_locate str header footer False = Some (ds, de) \<and>
         matter_footer str footer True (de + 1 + length footer) \<noteq> None)"
    using matter_detect_present [of str header footer False] by (simp only: not_False_eq_True)
  have md': "matter_detect str header footer True \<noteq> None \<longleftrightarrow>
      (\<exists>ds de. matter_locate str header footer True = Some (ds, de) \<and>
         matter_footer str footer False (de + 1 + length footer) \<noteq> None)"
    using matter_detect_present [of str header footer True] by (simp only: not_True_eq_False)
  have strict: "matter_detect str header footer False \<noteq> None \<longleftrightarrow>
      \<not> extends \<and> (\<exists>ds de. found = Some (ds, de) \<and> footer_ok de)"
    unfolding md acc loc by auto
  have lse: "matter_detect str header footer True \<noteq> None \<longleftrightarrow> found \<noteq> None"
    unfolding md' loc using acc' by auto
  have tst: "snd (matter_test (JStr str) given) =
      Inr (matter_detect str header footer (truthy (loose opts)) \<noteq> None)"
    using matter_test_on_accepted_options [OF fo, of str] ne
    by (simp add: test_detect_eq header_def footer_def)
  have absent: "matter env (JStr str) given =
      \<lparr>opts_after = seen, calls = [], ret = Inr \<lparr>src = str, data = JNull, body = str\<rparr>\<rparr>"
    if "matter_detect str header footer (truthy (loose opts)) = None"
    using matter_absent [OF fs fo] that by (simp add: header_def footer_def)
  have main: "(\<not> truthy (loose opts) \<longrightarrow>
            (extends \<longrightarrow>
               matter_detect str header footer False = None \<and>
               snd (matter_test (JStr str) given) = Inr False \<and>
               matter env (JStr str) given =
                 \<lparr>opts_after = seen, calls = [],
                  ret = Inr \<lparr>src = str, data = JNull, body = str\<rparr>\<rparr>) \<and>
            (\<not> extends \<longrightarrow>
               (matter_detect str header footer False \<noteq> None \<longleftrightarrow>
                  (\<exists>ds de. found = Some (ds, de) \<and> footer_ok de)) \<and>
               snd (matter_test (JStr str) given) =
                  Inr (\<exists>ds de. found = Some (ds, de) \<and> footer_ok de))) \<and>
         (truthy (loose opts) \<longrightarrow>
            (matter_detect str header footer True \<noteq> None \<longleftrightarrow> found \<noteq> None) \<and>
            snd (matter_test (JStr str) given) = Inr (found \<noteq> None))"
  proof (cases "truthy (loose opts)")
    case True
    with lse tst show ?thesis by simp
  next
    case False
    show ?thesis
    proof (cases extends)
      case True
      with strict have "matter_detect str header footer False = None" by blast
      with False True tst absent show ?thesis by simp
    next
      case ne: False
      with False strict tst show ?thesis by simp
    qed
  qed
  have ex: "snd (matter_test (JStr (js ''----\<newline>---'')) None) = Inr False"
    "snd (matter_test (JStr (js ''----\<newline>---'')) (Some loose_opts)) = Inr True"
    by (simp_all add: eval_defs)
  from main ex show ?thesis
    unfolding Let_def header_def footer_def extends_def found_def footer_ok_def by blast
qed

theorem rejected_without_repeated_char:
  "prefix dashes (js ''---\<newline>foo'') \<and> length dashes < length (js ''---\<newline>foo'') \<and>
   js ''---\<newline>foo'' ! length dashes = nl \<and>
   matter_detect (js ''---\<newline>foo'') dashes dashes False = None \<and>
   snd (matter_test (JStr (js ''---\<newline>foo'')) None) = Inr False \<and>
   ret (matter sample_env (JStr (js ''---\<newline>foo'')) None) =
     Inr \<lparr>src = js ''---\<newline>foo'', data = JNull, body = js ''---\<newline>foo''\<rparr>"
  by (simp add: eval_defs)


theorem header_guard_then_later_steps_witness:
  "formatOptions sample_env None = (None, Inr default_opts) \<and>
   header_of default_opts = dashes \<and> \<not> truthy (loose default_opts) \<and>
   formatString (JStr (js ''----\<newline>---'')) = Inr (js ''----\<newline>---'') \<and>
   prefix dashes (js ''----\<newline>---'') \<and> length dashes < length (js ''----\<newline>---'') \<and>
   js ''----\<newline>---'' ! length dashes = last dashes \<and>
   matter_detect (js ''----\<newline>---'') dashes dashes False = None \<and>
   snd (matter_test (JStr (js ''----\<newline>---'')) None) = Inr False \<and>
   ret (matter sample_env (JStr (js ''----\<newline>---'')) None) =
     Inr \<lparr>src = js ''----\<newline>---'', data = JNull, body = js ''----\<newline>---''\<rparr> \<and>
   js ''---\<newline>---'' ! length dashes = nl \<and>
   snd (matter_test (JStr (js ''---\<newline>---'')) None) = Inr True \<and>
   formatOptions sample_env (Some loose_opts) =
     (Some (default_opts\<lparr>loose := JBool True\<rparr>), Inr (default_opts\<lparr>loose := JBool True\<rparr>)) \<and>
   matter_detect (js ''----\<newline>---'') dashes dashes True \<noteq> None \<and>
   snd (matter_test (JStr (js ''----\<newline>---'')) (Some loose_opts)) = Inr True"
proof -
  let ?s = "js ''----\<newline>---''"
  let ?t = "js ''---\<newline>---''"
  let ?l = "default_opts\<lparr>loose := JBool True\<rparr>"
  have fo: "formatOptions sample_env None = (None, Inr default_opts)"
    by (simp add: formatOptions_def)
  have h: "header_of default_opts = dashes" "footer_of default_opts = dashes"
    "\<not> truthy (loose default_opts)"
    by (simp_all add: eval_defs)
  have fs: "formatString (JStr ?s) = Inr ?s"
    by (simp add: eval_defs)
  have pre: "prefix (header_of default_opts) ?s" "length (header_of default_opts) < length ?s"
    by (simp_all add: eval_defs)
  have ext: "header_of default_opts \<noteq> []"
    "?s ! length (header_of default_opts) \<noteq> nl"
    "?s ! length (header_of default_opts) = last (header_of default_opts)"
    by (simp_all add: eval_defs)
  have 1: "matter_detect ?s (header_of default_opts) (footer_of default_opts) False = None \<and>
      snd (matter_test (JStr ?s) None) = Inr False \<and>
      matter sample_env (JStr ?s) None =
        \<lparr>opts_after = None, calls = [], ret = Inr \<lparr>src = ?s, data = JNull, body = ?s\<rparr>\<rparr>"
    using header_guard_then_later_steps [OF fo fs pre, unfolded Let_def, THEN conjunct1] h(3) ext by blast
  then have r1: "ret (matter sample_env (JStr ?s) None) = Inr \<lparr>src = ?s, data = JNull, body = ?s\<rparr>"
    by simp
  have fs': "formatString (JStr ?t) = Inr ?t"
    by (simp add: eval_defs)
  have pre': "prefix (header_of default_opts) ?t" "length (header_of default_opts) < length ?t"
    by (simp_all add: eval_defs)
  have nl: "?t ! length (header_of default_opts) = nl"
    by (simp add: eval_defs)
  have 2: "snd (matter_test (JStr ?t) None) = Inr True"
    using header_guard_then_later_steps [OF fo fs' pre', unfolded Let_def, THEN conjunct1, THEN conjunct1, rule_format, OF h(3),
        THEN conjunct2, rule_format, THEN conjunct2] nl
    by (simp add: eval_defs)
  have fo'': "formatOptions sample_env (Some loose_opts) = (Some ?l, Inr ?l)"
    by (simp add: eval_defs)
  have h'': "header_of ?l = dashes" "footer_of ?l = dashes" "truthy (loose ?l)"
    by (simp_all add: eval_defs)
  have pre'': "prefix (header_of ?l) ?s" "length (header_of ?l) < length ?s"
    by (simp_all add: eval_defs)
  have fnd: "(case indexOf ?s [nl] (length (header_of ?l)) of
               None \<Rightarrow> None
             | Some ds \<Rightarrow> (case indexOf ?s (nl # footer_of ?l) ds of
                            None \<Rightarrow> None
                          | Some de \<Rightarrow> Some (ds, de))) \<noteq> None"
    by (simp add: eval_defs)
  have 3: "matter_detect ?s (header_of ?l) (footer_of ?l) True \<noteq> None \<and>
      snd (matter_test (JStr ?s) (Some loose_opts)) = Inr True"
    using header_guard_then_later_steps [OF fo'' fs pre'', unfolded Let_def, THEN conjunct1, THEN conjunct2, rule_format, OF h''(3)]
      fnd by simp
  from fo h fs pre ext 1 r1 nl 2 fo'' 3 show ?thesis
    unfolding h h'' by simp
qed

text \<open>
  C3. In strict mode, when \<open>bodyStart = dataEnd + 1 + footer.length\<close> is inside the text,
  detection rejects if the character there is not a linefeed and equals the last
  character of the footer, or if a character from there up to the next linefeed (or the
  end) is not white space: then \<open>matter\<close> returns the text unchanged and \<open>matter.test\<close>
  answers false. Otherwise the block is detected, \<open>matter.test\<close> answers true, and the body
  of every result \<open>matter\<close> returns starts just past that linefeed (at the end of the text
  when there is none). In loose mode nothing is checked, and the body starts at
  \<open>bodyStart\<close>, or one further when a linefeed stands there. In both modes \<open>matter\<close> does
  return such a result when the block is empty or the resolved parser returns.
\<close>

theorem footer_line_decides_body:
  assumes fo: "formatOptions env given = (seen, Inr opts)"
    and fs: "formatString (JStr str) = Inr str"
    and loc: "matter_locate str (header_of opts) (footer_of opts) (truthy (loose opts)) = Some (ds, de)"
  shows
    "let footer = footer_of opts;
         bs = de + 1 + length footer;
         line = takeWhile (\<lambda>c. c \<noteq> nl) (drop bs str);
         rejected = ((footer \<noteq> [] \<and> str ! bs \<noteq> nl \<and> str ! bs = last footer) \<or>
                     (\<exists>c \<in> set line. \<not> is_space c));
         past_line = (if bs + length line < length str then bs + length line + 1 else length str);
         absorbed = (if char_at str (int bs) = Some nl then bs + 1 else bs);
         returns = (\<lambda>start.
           matter_detect str (header_of opts) footer (truthy (loose opts)) = Some (ds, de, start) \<and>
           snd (matter_test (JStr str) given) = Inr True \<and>
           (\<forall>r. ret (matter env (JStr str) given) = Inr r \<longrightarrow> body r = drop start str) \<and>
           (ds = de \<longrightarrow>
              ret (matter env (JStr str) given) =
                Inr \<lparr>src = str, data = JNull, body = drop start str\<rparr>) \<and>
           (\<forall>parse v. ds < de \<and>
              resolve env (parsers opts) (lang_of env str (header_of opts) ds opts) = Inr (JFun parse) \<and>
              parse (trim (substr str ds (de - ds))) (truthy (loose opts)) = Inr v \<longrightarrow>
              ret (matter env (JStr str) given) =
                Inr \<lparr>src = str, data = v, body = drop start str\<rparr>))
     in (\<not> truthy (loose opts) \<and> bs < length str \<longrightarrow>
           (rejected \<longrightarrow>
              matter_detect str (header_of opts) footer False = None \<and>
              snd (matter_test (JStr str) given) = Inr False \<and>
              matter env (JStr str) given =
                \<lparr>opts_after = seen, calls = [],
                 ret = Inr \<lparr>src = str, data = JNull, body = str\<rparr>\<rparr>) \<and>
           (\<not> rejected \<longrightarrow> returns past_line)) \<and>
        (truthy (loose opts) \<longrightarrow> returns absorbed)"
proof -
  define header where "header = header_of opts"
  define footer where "footer = footer_of opts"
  define bs where "bs = de + 1 + length footer"
  define line where "line = takeWhile (\<lambda>c. c \<noteq> nl) (drop bs str)"
  define rejected where
    "rejected \<longleftrightarrow> (footer \<noteq> [] \<and> str ! bs \<noteq> nl \<and> str ! bs = last footer) \<or>
                   (\<exists>c \<in> set line. \<not> is_space c)"
  define past_line where
    "past_line = (if bs + length line < length str then bs + length line + 1 else length str)"
  define absorbed where "absorbed = (if char_at str (int bs) = Some nl then bs + 1 else bs)"
  define returns where
    "returns = (\<lambda>start.
           matter_detect str header footer (truthy (loose opts)) = Some (ds, de, start) \<and>
           snd (matter_test (JStr str) given) = Inr True \<and>
           (\<forall>r. ret (matter env (JStr str) given) = Inr r \<longrightarrow> body r = drop start str) \<and>
           (ds = de \<longrightarrow>
              ret (matter env (JStr str) given) =
                Inr \<lparr>src = str, data = JNull, body = drop start str\<rparr>) \<and>
           (\<forall>parse v. ds < de \<and>
              resolve env (parsers opts) (lang_of env str header ds opts) = Inr (JFun parse) \<and>
              parse (trim (substr str ds (de - ds))) (truthy (loose opts)) = Inr v \<longrightarrow>
              ret (matter env (JStr str) given) =
                Inr \<lparr>src = str, data = v, body = drop start str\<rparr>))"
  have ne: "str \<noteq> []"
    using loc by (rule matter_locate_nonempty)
  have loc': "matter_locate str header footer (truthy (loose opts)) = Some (ds, de)"
    using loc by (simp add: header_def footer_def)
  have md: "matter_detect str header footer (truthy (loose opts)) =
      (case matter_footer str footer (\<not> truthy (loose opts)) bs of
         None \<Rightarrow> None | Some b \<Rightarrow> Some (ds, de, b))"
    by (simp add: matter_detect_def loc' bs_def)
  have tst: "snd (matter_test (JStr str) given) =
      Inr (matter_detect str header footer (truthy (loose opts)) \<noteq> None)"
    using matter_test_on_accepted_options [OF fo, of str] ne
    by (simp add: test_detect_eq header_def footer_def)
  have present: "returns start"
    if "matter_detect str header footer (truthy (loose opts)) = Some (ds, de, start)" for start
  proof -
    from that have d: "matter_detect str (header_of opts) (footer_of opts) (truthy (loose opts)) =
        Some (ds, de, start)"
      by (simp add: header_def footer_def)
    note r = matter_present_returns [OF fs fo d]
    from that tst have "snd (matter_test (JStr str) given) = Inr True"
      by simp
    with that r show ?thesis
      unfolding returns_def header_def by blast
  qed
  have le: "bs + length line \<le> length str" if "bs < length str"
    using length_takeWhile_le [of "\<lambda>c. c \<noteq> nl" "drop bs str"] that by (simp add: line_def)
  have strict: "matter_footer str footer True bs =
      (if rejected then None else Some past_line)" if "bs < length str"
    using that le [OF that]
    unfolding matter_footer_strict rejected_def past_line_def line_def by auto
  have main: "(\<not> truthy (loose opts) \<and> bs < length str \<longrightarrow>
           (rejected \<longrightarrow>
              matter_detect str header footer False = None \<and>
              snd (matter_test (JStr str) given) = Inr False \<and>
              matter env (JStr str) given =
                \<lparr>opts_after = seen, calls = [],
                 ret = Inr \<lparr>src = str, data = JNull, body = str\<rparr>\<rparr>) \<and>
           (\<not> rejected \<longrightarrow> returns past_line)) \<and>
        (truthy (loose opts) \<longrightarrow> returns absorbed)"
  proof (cases "truthy (loose opts)")
    case True
    have "matter_detect str header footer (truthy (loose opts)) = Some (ds, de, absorbed)"
      unfolding md using True by (simp add: matter_footer_loose absorbed_def)
    then have "returns absorbed" by (rule present)
    with True show ?thesis by simp
  next
    case False
    show ?thesis
    proof (cases "bs < length str")
      case nin: False
      with False show ?thesis by simp
    next
      case True
      show ?thesis
      proof (cases rejected)
        case rej: True
        have n: "matter_detect str header footer (truthy (loose opts)) = None"
          unfolding md using False rej by (simp add: strict [OF True])
        have "matter env (JStr str) given =
            \<lparr>opts_after = seen, calls = [], ret = Inr \<lparr>src = str, data = JNull, body = str\<rparr>\<rparr>"
          using matter_absent [OF fs fo] n by (simp add: header_def footer_def)
        moreover have "matter_detect str header footer False = None"
          using n False by simp
        moreover have "snd (matter_test (JStr str) given) = Inr False"
          using n tst by simp
        ultimately show ?thesis using rej False by simp
      next
        case acc: False
        have "matter_detect str header footer (truthy (loose opts)) = Some (ds, de, past_line)"
          unfolding md using False acc by (simp add: strict [OF True])
        then have "returns past_line" by (rule present)
        with acc False show ?thesis by simp
      qed
    qed
  qed
  then show ?thesis
    unfolding Let_def header_def footer_def bs_def line_def rejected_def past_line_def absorbed_def
      returns_def .
qed

theorem footer_line_decides_body_witness:
  "formatOptions sample_env None = (None, Inr default_opts) \<and>
   \<not> truthy (loose default_opts) \<and>
   matter_locate (js ''---\<newline>foo\<newline>---  \<newline>xy'') dashes dashes False = Some (3, 7) \<and>
   takeWhile (\<lambda>c. c \<noteq> nl) (drop (7 + 1 + length dashes) (js ''---\<newline>foo\<newline>---  \<newline>xy'')) = js ''  '' \<and>
   matter_detect (js ''---\<newline>foo\<newline>---  \<newline>xy'') dashes dashes False = Some (3, 7, 14) \<and>
   snd (matter_test (JStr (js ''---\<newline>foo\<newline>---  \<newline>xy'')) None) = Inr True \<and>
   ret (matter sample_env (JStr (js ''---\<newline>foo\<newline>---  \<newline>xy'')) None) =
     Inr \<lparr>src = js ''---\<newline>foo\<newline>---  \<newline>xy'', data = JStr (js ''foo''), body = js ''xy''\<rparr> \<and>
   matter_locate (js ''---\<newline>foo\<newline>---x\<newline>xy'') dashes dashes False = Some (3, 7) \<and>
   \<not> is_space (js ''---\<newline>foo\<newline>---x\<newline>xy'' ! 11) \<and>
   snd (matter_test (JStr (js ''---\<newline>foo\<newline>---x\<newline>xy'')) None) = Inr False \<and>
   ret (matter sample_env (JStr (js ''---\<newline>foo\<newline>---x\<newline>xy'')) None) =
     Inr \<lparr>src = js ''---\<newline>foo\<newline>---x\<newline>xy'', data = JNull,
          body = js ''---\<newline>foo\<newline>---x\<newline>xy''\<rparr> \<and>
   matter_locate (js ''---\<newline>foo\<newline>---xy'') dashes dashes True = Some (3, 7) \<and>
   matter_detect (js ''---\<newline>foo\<newline>---xy'') dashes dashes True = Some (3, 7, 11) \<and>
   ret (matter sample_env (JStr (js ''---\<newline>foo\<newline>---xy'')) (Some loose_opts)) =
     Inr \<lparr>src = js ''---\<newline>foo\<newline>---xy'', data = JStr (js ''foo''), body = js ''xy''\<rparr>"
proof -
  let ?s = "js ''---\<newline>foo\<newline>---  \<newline>xy''"
  let ?x = "js ''---\<newline>foo\<newline>---x\<newline>xy''"
  let ?u = "js ''---\<newline>foo\<newline>---xy''"
  let ?f = "footer_of default_opts"
  let ?bs = "7 + 1 + length ?f"
  have fo: "formatOptions sample_env None = (None, Inr default_opts)"
    by (simp add: formatOptions_def)
  have h: "header_of default_opts = dashes" "footer_of default_opts = dashes"
    "truthy (loose default_opts) = False"
    by (simp_all add: eval_defs)
  have strict: "\<not> truthy (loose default_opts)"
    by (simp add: h)
  have fs: "formatString (JStr ?s) = Inr ?s"
    by (simp add: eval_defs)
  have loc: "matter_locate ?s (header_of default_opts) ?f (truthy (loose default_opts)) = Some (3, 7)"
    by (simp add: eval_defs)
  have lt: "?bs < length ?s"
    by (simp add: eval_defs)
  have line: "takeWhile (\<lambda>c. c \<noteq> nl) (drop ?bs ?s) = js ''  ''"
    by (simp add: eval_defs)
  have nrej: "\<not> ((?f \<noteq> [] \<and> ?s ! ?bs \<noteq> nl \<and> ?s ! ?bs = last ?f) \<or>
                (\<exists>c \<in> set (takeWhile (\<lambda>c. c \<noteq> nl) (drop ?bs ?s)). \<not> is_space c))"
    by (simp add: eval_defs)
  have past: "(if ?bs + length (takeWhile (\<lambda>c. c \<noteq> nl) (drop ?bs ?s)) < length ?s
               then ?bs + length (takeWhile (\<lambda>c. c \<noteq> nl) (drop ?bs ?s)) + 1 else length ?s) = 14"
    by (simp add: eval_defs)
  note a = footer_line_decides_body [OF fo fs loc, unfolded Let_def, THEN conjunct1, rule_format, OF conjI [OF strict lt],
      THEN conjunct2, rule_format, OF nrej, unfolded past]
  have a1: "matter_detect ?s dashes dashes False = Some (3, 7, 14)"
    using a [THEN conjunct1] by (simp only: h)
  have a2: "snd (matter_test (JStr ?s) None) = Inr True"
    using a [THEN conjunct2, THEN conjunct1] .
  have rs: "resolve sample_env (parsers default_opts)
              (lang_of sample_env ?s (header_of default_opts) 3 default_opts) = Inr (JFun echo)"
    by (simp add: eval_defs)
  have ps: "echo (trim (substr ?s 3 (7 - 3))) (truthy (loose default_opts)) = Inr (JStr (js ''foo''))"
    by (simp add: eval_defs)
  have lt37: "(3::nat) < 7" by simp
  have "ret (matter sample_env (JStr ?s) None) =
      Inr \<lparr>src = ?s, data = JStr (js ''foo''), body = drop 14 ?s\<rparr>"
    using a [THEN conjunct2, THEN conjunct2, THEN conjunct2, THEN conjunct2, rule_format,
        OF conjI [OF lt37 conjI [OF rs ps]]] .
  moreover have "drop 14 ?s = js ''xy''"
    by (simp add: js_def)
  ultimately have a3: "ret (matter sample_env (JStr ?s) None) =
      Inr \<lparr>src = ?s, data = JStr (js ''foo''), body = js ''xy''\<rparr>"
    by simp
  have fsx: "formatString (JStr ?x) = Inr ?x"
    by (simp add: eval_defs)
  have locx: "matter_locate ?x (header_of default_opts) ?f (truthy (loose default_opts)) = Some (3, 7)"
    by (simp add: eval_defs)
  have ltx: "?bs < length ?x"
    by (simp add: eval_defs)
  have nsp: "\<not> is_space (?x ! 11)"
    by (simp add: eval_defs)
  have rej: "(?f \<noteq> [] \<and> ?x ! ?bs \<noteq> nl \<and> ?x ! ?bs = last ?f) \<or>
             (\<exists>c \<in> set (takeWhile (\<lambda>c. c \<noteq> nl) (drop ?bs ?x)). \<not> is_space c)"
    by (simp add: eval_defs)
  note b = footer_line_decides_body [OF fo fsx locx, unfolded Let_def, THEN conjunct1, rule_format, OF conjI [OF strict ltx],
      THEN conjunct1, rule_format, OF rej]
  have b1: "snd (matter_test (JStr ?x) None) = Inr False"
    using b [THEN conjunct2, THEN conjunct1] .
  have b2: "ret (matter sample_env (JStr ?x) None) = Inr \<lparr>src = ?x, data = JNull, body = ?x\<rparr>"
    using b [THEN conjunct2, THEN conjunct2] by simp
  let ?l = "default_opts\<lparr>loose := JBool True\<rparr>"
  have fol: "formatOptions sample_env (Some loose_opts) = (Some ?l, Inr ?l)"
    by (simp add: eval_defs)
  have hl: "header_of ?l = dashes" "footer_of ?l = dashes" "truthy (loose ?l) = True"
    by (simp_all add: eval_defs)
  have lse: "truthy (loose ?l)"
    by (simp add: hl)
  have fsu: "formatString (JStr ?u) = Inr ?u"
    by (simp add: eval_defs)
  have locu: "matter_locate ?u (header_of ?l) (footer_of ?l) (truthy (loose ?l)) = Some (3, 7)"
    by (simp add: eval_defs)
  have absorbed: "(if char_at ?u (int (7 + 1 + length (footer_of ?l))) = Some nl
                   then 7 + 1 + length (footer_of ?l) + 1 else 7 + 1 + length (footer_of ?l)) = 11"
    by (simp add: eval_defs)
  note c = footer_line_decides_body [OF fol fsu locu, unfolded Let_def, THEN conjunct2, rule_format, OF lse,
      unfolded absorbed]
  have c1: "matter_detect ?u dashes dashes True = Some (3, 7, 11)"
    using c [THEN conjunct1] by (simp only: hl)
  have rsl: "resolve sample_env (parsers ?l) (lang_of sample_env ?u (header_of ?l) 3 ?l) = Inr (JFun echo)"
    by (simp add: eval_defs)
  have psl: "echo (trim (substr ?u 3 (7 - 3))) (truthy (loose ?l)) = Inr (JStr (js ''foo''))"
    by (simp add: eval_defs)
  have "ret (matter sample_env (JStr ?u) (Some loose_opts)) =
      Inr \<lparr>src = ?u, data = JStr (js ''foo''), body = drop 11 ?u\<rparr>"
    using c [THEN conjunct2, THEN conjunct2, THEN conjunct2, THEN conjunct2, rule_format,
        OF conjI [OF lt37 conjI [OF rsl psl]]] .
  moreover have "drop 11 ?u = js ''xy''"
    by (simp add: js_def)
  ultimately have c2: "ret (matter sample_env (JStr ?u) (Some loose_opts)) =
      Inr \<lparr>src = ?u, data = JStr (js ''foo''), body = js ''xy''\<rparr>"
    by simp
  from fo strict loc line a1 a2 a3 locx nsp b1 b2 locu c1 c2 show ?thesis
    unfolding h hl by simp
qed

subsection \<open>Round trip\<close>

text \<open>
  C8. The claim is that extracting header, linefeed, \<open>m\<close>, linefeed, footer, linefeed,
  \<open>b\<close> gives the data of parsing \<open>m\<close> and the body \<open>b\<close>, for every parseable \<open>m\<close> that
  does not contain a linefeed followed by the footer. As amended: for a header that does
  not begin with a byte-order mark, a footer without a linefeed, and a text \<open>m\<close> such that
  linefeed plus \<open>m\<close> does not contain linefeed plus footer (so \<open>m\<close> neither begins with the
  footer nor contains it after a linefeed), extraction calls the parser resolved for
  \<open>opts.lang\<close> once, on the trimmed \<open>m\<close>, and returns its value as data and \<open>b\<close> as body.
\<close>

theorem round_trip_of_trimmed_metadata:
  assumes fo: "formatOptions env given = (seen, Inr opts)"
    and nb: "\<not> prefix [bom] (header_of opts)"
    and nf: "nl \<notin> set (footer_of opts)"
    and nm: "indexOf (nl # m) (nl # footer_of opts) 0 = None"
    and lw: "toLowerCase env [] = []"
    and rs: "resolve env (parsers opts) (as_string (lang opts)) = Inr (JFun parse)"
    and ps: "parse (trim m) (truthy (loose opts)) = Inr d"
  shows "matter env (JStr (header_of opts @ nl # m @ nl # footer_of opts @ nl # b)) given =
     \<lparr>opts_after = seen, calls = [(trim m, truthy (loose opts))],
      ret = Inr \<lparr>src = header_of opts @ nl # m @ nl # footer_of opts @ nl # b, data = d, body = b\<rparr>\<rparr>"
proof -
  define h where "h = header_of opts"
  define f where "f = footer_of opts"
  define str where "str = h @ nl # m @ nl # f @ nl # b"
  have "char_at str 0 \<noteq> Some bom"
    using nb by (cases h) (simp_all add: str_def char_at_def h_def [symmetric] nl_def bom_def)
  then have fs: "formatString (JStr str) = Inr str"
    by (simp add: formatString_def)
  have ne: "str \<noteq> []" by (simp add: str_def)
  have det: "matter_detect str (header_of opts) (footer_of opts) (truthy (loose opts)) =
      Some (length h, length h + length m + 1, length h + length m + 1 + 1 + length f + 1)"
    unfolding str_def h_def [symmetric] f_def [symmetric]
    using nf nm by (intro detect_round_trip) (simp_all add: f_def)
  have lt: "length h < length h + length m + 1" by simp
  have sp: "substr str (length h) (length h + length m + 1 - length h) = nl # m"
    by (simp add: substr_def str_def)
  have lg: "lang_of env str (header_of opts) (length h) opts = as_string (lang opts)"
    by (simp add: lang_of_def h_def [symmetric] substr_def trim_def lw)
  have bd: "substr_from str (length h + length m + 1 + 1 + length f + 1) = b"
    unfolding str_def by (rule body_round_trip)
  have "matter env (JStr str) given =
     \<lparr>opts_after = seen,
      calls = [(trim (substr str (length h) (length h + length m + 1 - length h)), truthy (loose opts))],
      ret = (case parse (trim (substr str (length h) (length h + length m + 1 - length h))) (truthy (loose opts)) of
               Inl e \<Rightarrow> Inl e
             | Inr d \<Rightarrow> Inr \<lparr>src = str, data = d,
                   body = substr_from str (length h + length m + 1 + 1 + length f + 1)\<rparr>)\<rparr>"
    using fs fo ne det lt
  proof (rule matter_parser_called)
    show "resolve env (parsers opts) (lang_of env str (header_of opts) (length h) opts) = Inr (JFun parse)"
      unfolding lg by (rule rs)
  qed
  then have "matter env (JStr str) given =
     \<lparr>opts_after = seen, calls = [(trim m, truthy (loose opts))],
      ret = Inr \<lparr>src = str, data = d, body = b\<rparr>\<rparr>"
    unfolding sp bd trim_after_nl ps by simp
  then show ?thesis
    unfolding str_def h_def f_def .
qed

theorem round_trip_fails_on_untrimmed_or_footer_led_metadata:
  "indexOf (js '' x'') (nl # dashes) 0 = None \<and>
   echo (js '' x'') False = Inr (JStr (js '' x'')) \<and>
   ret (matter sample_env (JStr (dashes @ nl # js '' x'' @ nl # dashes @ nl # js ''b'')) None) =
     Inr \<lparr>src = dashes @ nl # js '' x'' @ nl # dashes @ nl # js ''b'',
          data = JStr (js ''x''), body = js ''b''\<rparr> \<and>
   js ''x'' \<noteq> js '' x'' \<and>
   indexOf (js ''---\<newline>x'') (nl # dashes) 0 = None \<and>
   echo (js ''---\<newline>x'') False = Inr (JStr (js ''---\<newline>x'')) \<and>
   ret (matter sample_env (JStr (dashes @ nl # js ''---\<newline>x'' @ nl # dashes @ nl # js ''b'')) None) =
     Inr \<lparr>src = dashes @ nl # js ''---\<newline>x'' @ nl # dashes @ nl # js ''b'',
          data = JNull, body = js ''x\<newline>---\<newline>b''\<rparr>"
  by (simp add: eval_defs)

theorem round_trip_of_trimmed_metadata_witness:
  "formatOptions sample_env None = (None, Inr default_opts) \<and>
   \<not> prefix [bom] (header_of default_opts) \<and>
   nl \<notin> set (footer_of default_opts) \<and>
   indexOf (nl # js '' foo: bar'') (nl # footer_of default_opts) 0 = None \<and>
   toLowerCase sample_env [] = [] \<and>
   resolve sample_env (parsers default_opts) (as_string (lang default_opts)) = Inr (JFun echo) \<and>
   echo (trim (js '' foo: bar'')) (truthy (loose default_opts)) = Inr (JStr (js ''foo: bar'')) \<and>
   matter sample_env (JStr (js ''---\<newline> foo: bar\<newline>---\<newline>baz'')) None =
     \<lparr>opts_after = None, calls = [(js ''foo: bar'', False)],
      ret = Inr \<lparr>src = js ''---\<newline> foo: bar\<newline>---\<newline>baz'',
                 data = JStr (js ''foo: bar''), body = js ''baz''\<rparr>\<rparr>"
proof -
  let ?m = "js '' foo: bar''"
  have fo: "formatOptions sample_env None = (None, Inr default_opts)"
    by (simp add: formatOptions_def)
  have nb: "\<not> prefix [bom] (header_of default_opts)"
    by (simp add: eval_defs)
  have nf: "nl \<notin> set (footer_of default_opts)"
    by (simp add: eval_defs)
  have nm: "indexOf (nl # ?m) (nl # footer_of default_opts) 0 = None"
    by (simp add: eval_defs)
  have lw: "toLowerCase sample_env [] = []"
    by (simp add: eval_defs)
  have rs: "resolve sample_env (parsers default_opts) (as_string (lang default_opts)) = Inr (JFun echo)"
    by (simp add: eval_defs)
  have ps: "echo (trim ?m) (truthy (loose default_opts)) = Inr (JStr (js ''foo: bar''))"
    by (simp add: eval_defs)
  have doc: "header_of default_opts @ nl # ?m @ nl # footer_of default_opts @ nl # js ''baz'' =
             js ''---\<newline> foo: bar\<newline>---\<newline>baz''"
    by (simp add: eval_defs)
  have tr: "trim ?m = js ''foo: bar''" "truthy (loose default_opts) = False"
    by (simp_all add: eval_defs)
  have "matter sample_env (JStr (js ''---\<newline> foo: bar\<newline>---\<newline>baz'')) None =
     \<lparr>opts_after = None, calls = [(js ''foo: bar'', False)],
      ret = Inr \<lparr>src = js ''---\<newline> foo: bar\<newline>---\<newline>baz'',
                 data = JStr (js ''foo: bar''), body = js ''baz''\<rparr>\<rparr>"
    using round_trip_of_trimmed_metadata [OF fo nb nf nm lw rs ps, of "js ''baz''"] unfolding doc tr .
  with fo nb nf nm lw rs ps show ?thesis by blast
qed

end
